theory Spec2Isabelle
  imports Main "HOL-Library.Word" "HOL-Library.AList"
begin

unbundle bit_operations_syntax

section \<open>Machine integers, byte images and exceptions\<close>

type_synonym u8 = "8 word"
type_synonym u16 = "16 word"
type_synonym u32 = "32 word"
type_synonym u64 = "64 word"

text \<open>
  The host is little-endian (\<^verbatim>\<open>decoder_cache.hpp\<close>: ``XXX: Assumes little-endian'').
  \<open>le16_image\<close> and \<open>le32_image\<close> are the object representations of a
  \<^verbatim>\<open>uint16_t\<close> and a \<^verbatim>\<open>uint32_t\<close>, as \<^verbatim>\<open>memcpy\<close> reads them;
  \<open>le16_value\<close> and \<open>le32_value\<close> read such bytes back, as a
  \<^verbatim>\<open>reinterpret_cast\<close> of the buffer does.
\<close>

definition le16_image :: "u16 \<Rightarrow> u8 list" where
  "le16_image w = [ucast w, ucast (drop_bit 8 w)]"

definition le16_value :: "u8 list \<Rightarrow> u16" where
  "le16_value bs = ucast (bs ! 0) OR push_bit 8 (ucast (bs ! 1))"

definition le32_image :: "u32 \<Rightarrow> u8 list" where
  "le32_image w = [ucast w, ucast (drop_bit 8 w), ucast (drop_bit 16 w), ucast (drop_bit 24 w)]"

definition le32_value :: "u8 list \<Rightarrow> u32" where
  "le32_value bs =
     ucast (bs ! 0) OR push_bit 8 (ucast (bs ! 1)) OR
     push_bit 16 (ucast (bs ! 2)) OR push_bit 24 (ucast (bs ! 3))"

text \<open>
  C++ integer conversions, written out on \<open>int\<close>: \<^verbatim>\<open>size_t\<close> is 64 bits wide and
  wraps around, and a \<^verbatim>\<open>size_t\<close> stored into an \<^verbatim>\<open>int\<close> keeps its low 32 bits
  as a two's complement number.
\<close>

definition to_size_t :: "int \<Rightarrow> int" where
  "to_size_t x = x mod 2 ^ 64"

definition to_int :: "int \<Rightarrow> int" where
  "to_int x = signed_take_bit 31 x"

definition PTRDIFF_MAX :: int where
  "PTRDIFF_MAX = 2 ^ 63 - 1"

text \<open>
  Every \<^verbatim>\<open>throw\<close> of the sources is a value. \<open>undefined_behaviour\<close> stands for an
  access outside an array or buffer, where C++ defines no result.
\<close>

datatype exception_type = OUT_OF_MEMORY | ILLEGAL_OPERATION | UNHANDLED_SYSCALL | PROTECTION_FAULT

datatype error =
    MachineException exception_type
  | runtime_error
  | length_error
  | bad_alloc
  | undefined_behaviour

section \<open>The decoder cache (\<^verbatim>\<open>decoder_cache.hpp\<close>)\<close>

text \<open>
  Modelled from the spec: \<^verbatim>\<open>PageSize\<close> is declared in \<^verbatim>\<open>common.hpp\<close>, which is not
  among the sources; the spec fixes guest pages at 4 KiB.
\<close>

definition PageSize :: nat where
  "PageSize = 4096"

text \<open>
  Bytes 2 and 3 of a \<^verbatim>\<open>DecoderData\<close> depend on the build. With
  \<^verbatim>\<open>RISCV_EXT_COMPRESSED\<close> (where \<^verbatim>\<open>compressed_enabled\<close> is true) they are the two
  bit-fields \<^verbatim>\<open>uint16_t idxend : 8; uint16_t icount : 8;\<close>, otherwise the single field
  \<^verbatim>\<open>uint16_t idxend;\<close>. A descriptor carries the fields of its build.
\<close>

datatype idx_fields =
    Compressed (idxend8: u8) (icount8: u8)
  | Uncompressed (idxend16: u16)

record DecoderData =
  m_bytecode :: u8
  m_handler :: u8
  idx :: idx_fields
  instr :: u32

definition compressed_enabled :: "DecoderData \<Rightarrow> bool" where
  "compressed_enabled d = (case idx d of Compressed e c \<Rightarrow> True | Uncompressed e \<Rightarrow> False)"

text \<open>
  \<^verbatim>\<open>idxend\<close> and \<^verbatim>\<open>icount\<close> are promoted to \<^verbatim>\<open>int\<close> before the arithmetic of
  \<^verbatim>\<open>block_bytes\<close> and \<^verbatim>\<open>instruction_count\<close>, so neither wraps around.
\<close>

definition idxend :: "DecoderData \<Rightarrow> int" where
  "idxend d = (case idx d of Compressed e c \<Rightarrow> uint e | Uncompressed e \<Rightarrow> uint e)"

definition block_bytes :: "DecoderData \<Rightarrow> int" where
  "block_bytes d = idxend d * (if compressed_enabled d then 2 else 4)"

definition instruction_count :: "DecoderData \<Rightarrow> int" where
  "instruction_count d =
     (case idx d of
        Compressed e c \<Rightarrow> uint e + 1 - uint c
      | Uncompressed e \<Rightarrow> uint e + 1)"

definition set_invalid_handler :: "DecoderData \<Rightarrow> DecoderData" where
  "set_invalid_handler d = d\<lparr>m_handler := 0\<rparr>"

definition is_invalid_handler :: "DecoderData \<Rightarrow> bool" where
  "is_invalid_handler d = (m_handler d = 0)"

text \<open>
  The static members of \<^verbatim>\<open>DecoderData<W>\<close>, shared by all descriptors:
  \<^verbatim>\<open>instr_handlers\<close> (an array of 256 function pointers, \<open>None\<close> a null pointer),
  \<^verbatim>\<open>handler_count\<close>, \<^verbatim>\<open>handler_cache\<close> and \<^verbatim>\<open>inst_handler_mapping\<close>, an
  \<^verbatim>\<open>unordered_map\<close> kept as an association list in the order it iterates. A handler is
  a value of the type \<open>'h\<close>; of an \<^verbatim>\<open>Instruction\<close> only its handler matters here.
\<close>

record 'h Instruction =
  handler :: 'h

record 'h handler_tables =
  instr_handlers :: "'h option list"
  handler_count :: nat
  handler_cache :: "'h \<Rightarrow> nat option"
  inst_handler_mapping :: "(nat \<times> u32) list"

text \<open>
  Modelled from the spec: \<^verbatim>\<open>handler_index_for\<close> is declared in \<^verbatim>\<open>decoder_cache.hpp\<close>
  and defined outside the sources. The spec (4.3): look the handler up in the handler
  cache and reuse its index if present; otherwise assign the next free index in
  \<^verbatim>\<open>instr_handlers\<close> and record it. The next free index is the allocation counter
  \<^verbatim>\<open>handler_count\<close>; the table holds at most 256 pointers, and a store past its end
  has no defined result. The spec names 1 as the first index assigned and the source
  initialises the counter to 0: no initial state is fixed here, and nothing below
  depends on one.
\<close>

definition handler_index_for :: "'h \<Rightarrow> 'h handler_tables \<Rightarrow> error + (nat \<times> 'h handler_tables)" where
  "handler_index_for new_handler t =
     (case handler_cache t new_handler of
        Some i \<Rightarrow> Inr (i, t)
      | None \<Rightarrow>
          if length (instr_handlers t) \<le> handler_count t then Inl undefined_behaviour
          else
            let i = handler_count t in
            Inr (i, t\<lparr>instr_handlers := (instr_handlers t)[i := Some new_handler],
                      handler_count := i + 1,
                      handler_cache := (handler_cache t)(new_handler \<mapsto> i)\<rparr>))"

text \<open>
  \<^verbatim>\<open>set_insn_handler\<close> stores the index into the \<^verbatim>\<open>uint8_t m_handler\<close>;
  \<^verbatim>\<open>set_handler\<close> then records the descriptor's own encoding as the representative of
  that index.
\<close>

definition set_insn_handler ::
  "'h \<Rightarrow> DecoderData \<Rightarrow> 'h handler_tables \<Rightarrow> error + (DecoderData \<times> 'h handler_tables)" where
  "set_insn_handler ih d t =
     (case handler_index_for ih t of
        Inl e \<Rightarrow> Inl e
      | Inr (i, t') \<Rightarrow> Inr (d\<lparr>m_handler := of_nat i\<rparr>, t'))"

definition set_handler ::
  "'h Instruction \<Rightarrow> DecoderData \<Rightarrow> 'h handler_tables \<Rightarrow> error + (DecoderData \<times> 'h handler_tables)" where
  "set_handler insn d t =
     (case set_insn_handler (handler insn) d t of
        Inl e \<Rightarrow> Inl e
      | Inr (d', t') \<Rightarrow>
          Inr (d', t'\<lparr>inst_handler_mapping :=
                 AList.update (unat (m_handler d')) (instr d') (inst_handler_mapping t')\<rparr>))"

definition get_handler :: "'h handler_tables \<Rightarrow> DecoderData \<Rightarrow> 'h option" where
  "get_handler t d = instr_handlers t ! unat (m_handler d)"

definition DIVISOR :: "bool \<Rightarrow> nat" where
  "DIVISOR ce = (if ce then 2 else 4)"

definition SIZE :: "bool \<Rightarrow> nat" where
  "SIZE ce = PageSize div DIVISOR ce"

record DecoderCache =
  cache :: "DecoderData list"

text \<open>
  The object representation of a descriptor, eight bytes: \<^verbatim>\<open>m_bytecode\<close>,
  \<^verbatim>\<open>m_handler\<close>, the 16-bit unit of \<^verbatim>\<open>idxend\<close> (and \<^verbatim>\<open>icount\<close>, allocated above
  \<^verbatim>\<open>idxend\<close> in the unit), then \<^verbatim>\<open>instr\<close>. \<open>DecoderData_overlay\<close> reads eight bytes
  as a descriptor of the build \<open>ce\<close>.
\<close>

definition idx_image :: "idx_fields \<Rightarrow> u8 list" where
  "idx_image f = (case f of Compressed e c \<Rightarrow> [e, c] | Uncompressed e \<Rightarrow> le16_image e)"

definition DecoderData_image :: "DecoderData \<Rightarrow> u8 list" where
  "DecoderData_image d = [m_bytecode d, m_handler d] @ idx_image (idx d) @ le32_image (instr d)"

definition DecoderData_overlay :: "bool \<Rightarrow> u8 list \<Rightarrow> DecoderData" where
  "DecoderData_overlay ce bs =
     \<lparr>m_bytecode = bs ! 0,
      m_handler = bs ! 1,
      idx = (if ce then Compressed (bs ! 2) (bs ! 3) else Uncompressed (le16_value (drop 2 bs))),
      instr = le32_value (drop 4 bs)\<rparr>"

definition DecoderCache_image :: "DecoderCache \<Rightarrow> u8 list" where
  "DecoderCache_image c = concat (map DecoderData_image (cache c))"

definition caches_image :: "DecoderCache list \<Rightarrow> u8 list" where
  "caches_image caches = concat (map DecoderCache_image caches)"

definition DecoderCache_overlay :: "bool \<Rightarrow> u8 list \<Rightarrow> DecoderCache" where
  "DecoderCache_overlay ce bs =
     \<lparr>cache = map (\<lambda>i. DecoderData_overlay ce (take 8 (drop (8 * i) bs))) [0..<SIZE ce]\<rparr>"

definition caches_overlay :: "bool \<Rightarrow> nat \<Rightarrow> u8 list \<Rightarrow> DecoderCache list" where
  "caches_overlay ce n bs =
     map (\<lambda>p. DecoderCache_overlay ce (take (SIZE ce * 8) (drop (SIZE ce * 8 * p) bs))) [0..<n]"

section \<open>Cache serialization (\<^verbatim>\<open>decoder_cache_serialize.hpp\<close>)\<close>

text \<open>
  \<^verbatim>\<open>_handler_item\<close> is packed: \<^verbatim>\<open>uint32_t idx\<close> then \<^verbatim>\<open>uint32_t instr\<close>. The key
  of \<^verbatim>\<open>inst_handler_mapping\<close> is a \<^verbatim>\<open>size_t\<close>, narrowed to 32 bits by the assignment
  \<^verbatim>\<open>hi_arr[i].idx = k\<close>.
\<close>

definition handler_item_image :: "nat \<times> u32 \<Rightarrow> u8 list" where
  "handler_item_image kv = le32_image (of_nat (fst kv)) @ le32_image (snd kv)"

text \<open>
  \<^verbatim>\<open>serialize_whole_decoder_cache(caches, n)\<close>, with the static
  \<^verbatim>\<open>inst_handler_mapping\<close> as the argument \<open>m\<close>: an association list in the order the
  \<^verbatim>\<open>unordered_map\<close> iterates. The array \<^verbatim>\<open>hi_arr\<close> has \<^verbatim>\<open>m.size() - 1\<close> entries
  and the loop writes one entry for every key other than 0: when the two numbers differ
  the loop writes past the array, or entries stay uninitialised (which a map, whose keys
  are distinct, excludes).
\<close>

definition serialize_whole_decoder_cache ::
  "bool \<Rightarrow> DecoderCache list \<Rightarrow> int \<Rightarrow> (nat \<times> u32) list \<Rightarrow> error + u8 list" where
  "serialize_whole_decoder_cache ce caches n m =
     (if n = 0 then Inr []
      else
        let size = to_int (to_size_t (to_size_t n * int (SIZE ce) * 8)) in
        if size < 0 then Inl length_error
        else if length (caches_image caches) < nat size then Inl undefined_behaviour
        else
          let out = take (nat size) (caches_image caches);
              needed_pairs = to_size_t (int (length m) - 1);
              hi_arr = filter (\<lambda>kv. fst kv \<noteq> 0) m
          in
            if PTRDIFF_MAX < needed_pairs * 8 then Inl bad_alloc
            else if int (length hi_arr) \<noteq> needed_pairs then Inl undefined_behaviour
            else Inr (out @ [of_int needed_pairs] @ concat (map handler_item_image hi_arr)))"

text \<open>
  \<^verbatim>\<open>deserialize_decoder_cache(data, n, L)\<close> in the \<^verbatim>\<open>LOAD_EXP\<close> build (the one the
  header selects). \<open>decode\<close> stands for \<^verbatim>\<open>CPU<W>::decode({instr}).handler\<close>, the
  decoder being outside the sources, and \<open>hs\<close> for the static array
  \<^verbatim>\<open>instr_handlers\<close> (256 entries, \<open>None\<close> a null pointer). The loop reads
  \<^verbatim>\<open>handlers[i]\<close> without a bound and \<^verbatim>\<open>_assign_handler\<close> indexes the array without
  a check: outside the buffer or the array the result is undefined.
\<close>

fun assign_handlers ::
  "(u32 \<Rightarrow> 'h) \<Rightarrow> u8 list \<Rightarrow> nat \<Rightarrow> nat \<Rightarrow> 'h option list \<Rightarrow> error + 'h option list" where
  "assign_handlers decode data off 0 hs = Inr hs"
| "assign_handlers decode data off (Suc k) hs =
     (if length data < off + 8 then Inl undefined_behaviour
      else
        let it_idx = le32_value (take 4 (drop off data));
            it_instr = le32_value (take 4 (drop (off + 4) data))
        in
          if length hs \<le> unat it_idx then Inl undefined_behaviour
          else assign_handlers decode data (off + 8) k (hs[unat it_idx := Some (decode it_instr)]))"

definition deserialize_decoder_cache ::
  "bool \<Rightarrow> (u32 \<Rightarrow> 'h) \<Rightarrow> u8 list \<Rightarrow> int \<Rightarrow> int \<Rightarrow> 'h option list \<Rightarrow>
     error + (DecoderCache list \<times> 'h option list)" where
  "deserialize_decoder_cache ce decode data n L hs =
     (let num_entries = int (SIZE ce);
          required_size = to_size_t (to_size_t n * num_entries * 8 + 1)
      in
        if to_size_t L < required_size then Inl runtime_error
        else if int (length data) < required_size then Inl undefined_behaviour
        else
          let handler_c = data ! nat (required_size - 1) in
          (case assign_handlers decode data (nat required_size) (unat handler_c) hs of
             Inl e \<Rightarrow> Inl e
           | Inr hs' \<Rightarrow> Inr (caches_overlay ce (nat n) data, hs')))"

text \<open>
  The raw layout of the spec, as a check on a byte vector: \<open>n * SIZE * 8\<close> bytes of
  image, one count byte \<open>H\<close>, then \<open>H\<close> entries of eight bytes.
\<close>

definition raw_layout :: "bool \<Rightarrow> nat \<Rightarrow> u8 list \<Rightarrow> bool" where
  "raw_layout ce n bs =
     (n * SIZE ce * 8 < length bs \<and>
      length bs = n * SIZE ce * 8 + 1 + 8 * unat (bs ! (n * SIZE ce * 8)))"

subsection \<open>Well-formed arguments\<close>

text \<open>
  \<open>caches_of_build ce n caches\<close>: \<open>caches\<close> is an array of \<open>n\<close> objects of the type
  \<^verbatim>\<open>DecoderCache<W>\<close> of the build \<open>ce\<close>, each an array of \<open>SIZE ce\<close> descriptors;
  \<open>descriptors_of_build\<close>: every descriptor has the fields of that build.
\<close>

definition caches_of_build :: "bool \<Rightarrow> int \<Rightarrow> DecoderCache list \<Rightarrow> bool" where
  "caches_of_build ce n caches =
     (int (length caches) = n \<and> list_all (\<lambda>c. length (cache c) = SIZE ce) caches)"

definition descriptors_of_build :: "bool \<Rightarrow> DecoderCache list \<Rightarrow> bool" where
  "descriptors_of_build ce caches =
     list_all (\<lambda>c. list_all (\<lambda>d. compressed_enabled d = ce) (cache c)) caches"

text \<open>
  \<open>handler_mapping_ok m\<close>: the keys of the map are distinct (it is a map) and each is
  a handler index, a value of the \<^verbatim>\<open>uint8_t m_handler\<close> that \<^verbatim>\<open>set_handler\<close> stored
  it under. \<open>handler_bindings m\<close> are the bindings of the indices other than 0.
\<close>

definition handler_mapping_ok :: "(nat \<times> u32) list \<Rightarrow> bool" where
  "handler_mapping_ok m = (distinct (map fst m) \<and> list_all (\<lambda>kv. fst kv < 256) m)"

definition handler_bindings :: "(nat \<times> u32) list \<Rightarrow> (nat \<times> u32) list" where
  "handler_bindings m = filter (\<lambda>kv. fst kv \<noteq> 0) m"

text \<open>
  \<open>handlers_assigned decode m caches\<close>: every descriptor with a handler index other
  than 0 has a representative encoding recorded under its index, and the representative
  decodes to the handler the descriptor's own encoding decodes to. This is what
  \<^verbatim>\<open>d.set_handler(decode(d.instr))\<close> leaves behind (lemmas \<open>set_handler_assigns\<close> and
  \<open>assigned_slots_handlers_assigned\<close> below).
\<close>

definition handlers_assigned :: "(u32 \<Rightarrow> 'h) \<Rightarrow> (nat \<times> u32) list \<Rightarrow> DecoderCache list \<Rightarrow> bool" where
  "handlers_assigned decode m caches =
     list_all (\<lambda>c. list_all (\<lambda>d. m_handler d = 0 \<or>
        (case map_of m (unat (m_handler d)) of
           None \<Rightarrow> False
         | Some e \<Rightarrow> decode e = decode (instr d)))
        (cache c)) caches"

text \<open>
  The state of the handler tables that \<^verbatim>\<open>set_handler\<close> maintains: the counter is
  within the table, every cached index is below the counter, the cache never gives one
  index to two handlers, and every recorded representative decodes to the handler cached
  under its index. A slot is assigned when its index is the cached index of the handler
  of its own encoding and has a representative recorded.
\<close>

definition tables_invariant :: "(u32 \<Rightarrow> 'h) \<Rightarrow> 'h handler_tables \<Rightarrow> bool" where
  "tables_invariant decode t =
     (length (instr_handlers t) = 256 \<and> handler_count t \<le> 256 \<and>
      (\<forall>h i. handler_cache t h = Some i \<longrightarrow> i < handler_count t) \<and>
      (\<forall>h h' i. handler_cache t h = Some i \<longrightarrow> handler_cache t h' = Some i \<longrightarrow> h = h') \<and>
      handler_mapping_ok (inst_handler_mapping t) \<and>
      (\<forall>kv \<in> set (inst_handler_mapping t). handler_cache t (decode (snd kv)) = Some (fst kv)))"

definition slot_assigned :: "(u32 \<Rightarrow> 'h) \<Rightarrow> 'h handler_tables \<Rightarrow> DecoderData \<Rightarrow> bool" where
  "slot_assigned decode t d =
     (handler_cache t (decode (instr d)) = Some (unat (m_handler d)) \<and>
      unat (m_handler d) \<in> fst ` set (inst_handler_mapping t))"

section \<open>Guest memory (\<^verbatim>\<open>memory.cpp\<close>)\<close>

text \<open>
  Modelled from the spec: \<^verbatim>\<open>PageAttributes\<close> and \<^verbatim>\<open>Page\<close> are declared in headers
  that are not among the sources. The spec (3): a page is a 4096-byte buffer plus the
  attributes \<open>read\<close>, \<open>write\<close>, \<open>exec\<close>, \<open>shared\<close> and \<open>is_cow\<close>. The buffer is a
  function of the offset, of which only the offsets below \<^verbatim>\<open>PageSize\<close> are used. A page
  made by \<^verbatim>\<open>new Page\<close> is owned (neither shared nor copy-on-write), zeroed, readable
  and writable (the loader copies a segment into fresh pages before it sets their
  attributes).
\<close>

record PageAttributes =
  attr_read :: bool
  attr_write :: bool
  attr_exec :: bool
  attr_shared :: bool
  attr_is_cow :: bool

record Page =
  attr :: PageAttributes
  page_data :: "nat \<Rightarrow> u8"

definition new_Page :: Page where
  "new_Page =
     \<lparr>attr = \<lparr>attr_read = True, attr_write = True, attr_exec = False,
               attr_shared = False, attr_is_cow = False\<rparr>,
      page_data = (\<lambda>off. 0)\<rparr>"

text \<open>\<^verbatim>\<open>Page::cow_page()\<close>: the static \<^verbatim>\<open>zeroed_page\<close>, read-only and zeroed.\<close>

definition cow_page :: Page where
  "cow_page =
     \<lparr>attr = \<lparr>attr_read = True, attr_write = False, attr_exec = False,
               attr_shared = False, attr_is_cow = True\<rparr>,
      page_data = (\<lambda>off. 0)\<rparr>"

text \<open>
  The members of \<^verbatim>\<open>Memory<W>\<close> that \<^verbatim>\<open>memory.cpp\<close> and the system calls use. The
  page table \<^verbatim>\<open>m_pages\<close> maps page numbers to pages; it is kept as an association list
  whose length is \<^verbatim>\<open>pages().size()\<close>. Each of the two page caches is the cached page
  number, \<open>None\<close> for the source's \<^verbatim>\<open>-1\<close> with a null pointer. \<open>'addr\<close> is the type
  of a guest address (\<^verbatim>\<open>address_type<W>\<close>): everywhere below a word \<open>'a word\<close>, of
  32 bits for \<^verbatim>\<open>W = 4\<close> and of 64 for \<^verbatim>\<open>W = 8\<close>.
\<close>

record 'addr Memory =
  m_pages :: "(nat \<times> Page) list"
  m_pages_total :: nat
  m_pages_highest :: nat
  m_current_rd_page :: "nat option"
  m_current_wr_page :: "nat option"
  m_start_address :: 'addr
  m_stack_address :: 'addr
  m_heap_address :: 'addr
  m_exit_address :: 'addr
  m_elf_end_vaddr :: u32
  m_protect_segments :: bool

text \<open>
  Modelled from the spec: the accessors \<^verbatim>\<open>pages_active\<close>, \<^verbatim>\<open>pages_total\<close> and
  \<^verbatim>\<open>heap_address\<close> and the method \<^verbatim>\<open>invalidate_page\<close> are declared in
  \<^verbatim>\<open>memory.hpp\<close>, which is not among the sources. The spec (3, 4.1): the memory tracks
  \<open>pages_total\<close>, a hard cap, and a cached page number for each direction, which is
  cleared when it is the number of the page allocated or invalidated;
  \<^verbatim>\<open>pages_active\<close> is the number of pages in the table.
\<close>

definition pages_active :: "'a word Memory \<Rightarrow> nat" where
  "pages_active mem = length (m_pages mem)"

definition pages_total :: "'a word Memory \<Rightarrow> nat" where
  "pages_total mem = m_pages_total mem"

definition heap_address :: "'a word Memory \<Rightarrow> 'a word" where
  "heap_address mem = m_heap_address mem"

definition invalidate_page :: "nat \<Rightarrow> 'a word Memory \<Rightarrow> 'a word Memory" where
  "invalidate_page pageno mem =
     mem\<lparr>m_current_rd_page :=
           (if m_current_rd_page mem = Some pageno then None else m_current_rd_page mem),
         m_current_wr_page :=
           (if m_current_wr_page mem = Some pageno then None else m_current_wr_page mem)\<rparr>"

text \<open>
  \<^verbatim>\<open>pages().insert({page, new Page})\<close>: the insertion of a map, which keeps the entry of
  a key that is already present. \<^verbatim>\<open>allocate_page\<close> returns a reference to the page
  now at \<open>page\<close>; here it returns the memory, where \<open>map_of (m_pages mem) page\<close> is
  that page.
\<close>

definition pages_insert :: "nat \<Rightarrow> Page \<Rightarrow> (nat \<times> Page) list \<Rightarrow> (nat \<times> Page) list" where
  "pages_insert page p ps = (case map_of ps page of None \<Rightarrow> ps @ [(page, p)] | Some q \<Rightarrow> ps)"

definition allocate_page :: "nat \<Rightarrow> 'a word Memory \<Rightarrow> 'a word Memory" where
  "allocate_page page mem =
     (let ps = pages_insert page new_Page (m_pages mem);
          mem' = mem\<lparr>m_pages := ps, m_pages_highest := max (m_pages_highest mem) (length ps)\<rparr>
      in invalidate_page page mem')"

definition default_page_fault :: "'a word Memory \<Rightarrow> nat \<Rightarrow> error + 'a word Memory" where
  "default_page_fault mem page =
     (if pages_active mem < pages_total mem then Inr (allocate_page page mem)
      else Inl (MachineException OUT_OF_MEMORY))"

text \<open>
  \<^verbatim>\<open>clear_all_pages\<close>: the owned pages are deleted and the table and both caches are
  cleared.
\<close>

definition clear_all_pages :: "'a word Memory \<Rightarrow> 'a word Memory" where
  "clear_all_pages mem = mem\<lparr>m_pages := [], m_current_rd_page := None, m_current_wr_page := None\<rparr>"

subsection \<open>Copies between host and guest\<close>

text \<open>
  Modelled from the spec: \<^verbatim>\<open>Memory::memcpy\<close> and \<^verbatim>\<open>Memory::memcpy_out\<close>, behind
  \<^verbatim>\<open>copy_to_guest\<close> and \<^verbatim>\<open>copy_from_guest\<close>, are defined outside the sources. The spec
  (4.1, 7): the copies walk the guest range page by page and may trigger page faults,
  which propagate as machine exceptions; a page that is not mapped reads as the zeroed
  copy-on-write page; a write to it faults the page in (\<^verbatim>\<open>default_page_fault\<close>); a page
  that lacks the attribute of the access faults. Guest addresses wrap around at the
  width of an address.
\<close>

definition page_number :: "'a::len word \<Rightarrow> nat" where
  "page_number a = unat a div PageSize"

definition page_offset :: "'a::len word \<Rightarrow> nat" where
  "page_offset a = unat a mod PageSize"

definition get_page :: "'a word Memory \<Rightarrow> nat \<Rightarrow> Page" where
  "get_page mem pageno = (case map_of (m_pages mem) pageno of None \<Rightarrow> cow_page | Some p \<Rightarrow> p)"

definition bind_error :: "error + 'b \<Rightarrow> ('b \<Rightarrow> error + 'c) \<Rightarrow> error + 'c" where
  "bind_error r f = (case r of Inl e \<Rightarrow> Inl e | Inr x \<Rightarrow> f x)"

definition write_byte :: "'a::len word Memory \<Rightarrow> 'a word \<Rightarrow> u8 \<Rightarrow> error + 'a word Memory" where
  "write_byte mem dst b =
     bind_error
       (case map_of (m_pages mem) (page_number dst) of
          None \<Rightarrow> default_page_fault mem (page_number dst)
        | Some p \<Rightarrow> Inr mem)
       (\<lambda>mem'.
          let p = get_page mem' (page_number dst) in
          if attr_write (attr p) then
            Inr (mem'\<lparr>m_pages :=
                   AList.update (page_number dst)
                     (p\<lparr>page_data := (page_data p)(page_offset dst := b)\<rparr>) (m_pages mem')\<rparr>)
          else Inl (MachineException PROTECTION_FAULT))"

fun memcpy :: "'a::len word Memory \<Rightarrow> 'a word \<Rightarrow> u8 list \<Rightarrow> error + 'a word Memory" where
  "memcpy mem dst [] = Inr mem"
| "memcpy mem dst (b # bs) = bind_error (write_byte mem dst b) (\<lambda>mem'. memcpy mem' (dst + 1) bs)"

fun memcpy_out :: "'a::len word Memory \<Rightarrow> 'a word \<Rightarrow> nat \<Rightarrow> error + u8 list" where
  "memcpy_out mem src 0 = Inr []"
| "memcpy_out mem src (Suc len) =
     (let p = get_page mem (page_number src) in
      if attr_read (attr p) then
        bind_error (memcpy_out mem (src + 1) len) (\<lambda>bs. Inr (page_data p (page_offset src) # bs))
      else Inl (MachineException PROTECTION_FAULT))"

section \<open>The machine and its system calls\<close>

text \<open>
  Modelled from the spec: the class \<^verbatim>\<open>Machine<W>\<close>, its signal table and its file
  descriptors are declared in headers that are not among the sources. The spec (3, 4.5):
  the arguments of a system call are read from the registers a0 to a5 and the result is
  written to a0; a signal action holds a handler address, the alternate-stack flag and a
  64-bit mask, in a process-wide table indexed by the signal number; the file
  descriptors translate virtual to real descriptors and decide whether a virtual
  descriptor may be written. The two methods are kept as functions of the virtual
  descriptor.
\<close>

record 'addr SignalAction =
  act_handler :: 'addr
  act_altstack :: bool
  act_mask :: u64

record FileDescriptors =
  translate :: "int \<Rightarrow> int"
  permit_write :: "int \<Rightarrow> bool"

record 'addr Machine =
  cpu_reg :: "nat \<Rightarrow> 'addr"
  memory :: "'addr Memory"
  sigactions :: "int \<Rightarrow> 'addr SignalAction"
  m_fds :: "FileDescriptors option"

definition REG_ARG0 :: nat where
  "REG_ARG0 = 10"

definition sysarg :: "'a word Machine \<Rightarrow> nat \<Rightarrow> 'a word" where
  "sysarg machine i = cpu_reg machine (REG_ARG0 + i)"

text \<open>\<^verbatim>\<open>sysarg<int>\<close>: the register narrowed to a 32-bit \<^verbatim>\<open>int\<close>.\<close>

definition sysarg_int :: "'a::len word Machine \<Rightarrow> nat \<Rightarrow> int" where
  "sysarg_int machine i = sint (ucast (sysarg machine i) :: u32)"

definition set_result :: "'a word Machine \<Rightarrow> 'a word \<Rightarrow> 'a word Machine" where
  "set_result machine v = machine\<lparr>cpu_reg := (cpu_reg machine)(REG_ARG0 := v)\<rparr>"

definition return_value :: "'a word Machine \<Rightarrow> 'a word" where
  "return_value machine = cpu_reg machine REG_ARG0"

definition sigaction :: "'a word Machine \<Rightarrow> int \<Rightarrow> 'a word SignalAction" where
  "sigaction machine sig = sigactions machine sig"

definition has_file_descriptors :: "'a word Machine \<Rightarrow> bool" where
  "has_file_descriptors machine = (m_fds machine \<noteq> None)"

definition copy_to_guest :: "'a::len word Machine \<Rightarrow> 'a word \<Rightarrow> u8 list \<Rightarrow> error + 'a word Machine" where
  "copy_to_guest machine dst buf =
     bind_error (memcpy (memory machine) dst buf) (\<lambda>mem. Inr (machine\<lparr>memory := mem\<rparr>))"

definition copy_from_guest :: "'a::len word Machine \<Rightarrow> 'a word \<Rightarrow> nat \<Rightarrow> error + u8 list" where
  "copy_from_guest machine src len = memcpy_out (memory machine) src len"

text \<open>The host's \<^verbatim>\<open>errno\<close> values (Linux), and \<^verbatim>\<open>SA_ONSTACK\<close> as the file defines it.\<close>

definition EBADF :: int where
  "EBADF = 9"

definition EINVAL :: int where
  "EINVAL = 22"

definition SA_ONSTACK :: "'a::len word" where
  "SA_ONSTACK = 0x08000000"

subsection \<open>\<^verbatim>\<open>brk\<close> (214)\<close>

text \<open>
  \<^verbatim>\<open>Memory<W>::BRK_MAX\<close> is a constant of a header that is not among the sources: it
  is the argument \<open>BRK_MAX\<close>. All arithmetic is on \<^verbatim>\<open>address_type<W>\<close> and wraps.
\<close>

definition syscall_brk :: "'a::len word \<Rightarrow> 'a word Machine \<Rightarrow> 'a word Machine" where
  "syscall_brk BRK_MAX machine =
     (let new_end = sysarg machine 0;
          new_end' =
            (if new_end > heap_address (memory machine) + BRK_MAX
               then heap_address (memory machine) + BRK_MAX
             else if new_end < heap_address (memory machine)
               then heap_address (memory machine)
             else new_end)
      in set_result machine new_end')"

subsection \<open>\<^verbatim>\<open>getrandom\<close> (278)\<close>

text \<open>
  The host's source of random bytes is the argument \<open>host_random\<close>: called with the
  number of bytes needed, it gives what the host call returns and the contents of
  \<^verbatim>\<open>buffer\<close> after it. \<open>openbsd\<close> selects the branch of
  \<^verbatim>\<open>#if defined(__OpenBSD__)\<close>, where \<^verbatim>\<open>arc4random_buf\<close> fills the buffer and
  \<^verbatim>\<open>result\<close> is the constant 0.
\<close>

definition syscall_getrandom ::
  "bool \<Rightarrow> (nat \<Rightarrow> int \<times> u8 list) \<Rightarrow> 'a::len word Machine \<Rightarrow> error + 'a word Machine" where
  "syscall_getrandom openbsd host_random machine =
     (let g_addr = sysarg machine 0;
          g_len = sysarg machine 1
      in
        if 256 < unat g_len then Inr (set_result machine (of_int (- 1)))
        else
          let need = min (unat g_len) 256;
              result = (if openbsd then 0 else fst (host_random need));
              buffer = snd (host_random need)
          in
            bind_error
              (if 0 < result then copy_to_guest machine g_addr (take (nat result) buffer)
               else Inr machine)
              (\<lambda>machine'. Inr (set_result machine' (of_int result))))"

subsection \<open>\<^verbatim>\<open>rt_sigaction\<close> (134)\<close>

text \<open>
  \<^verbatim>\<open>kernel_sigaction\<close> holds three guest addresses; in guest memory it is packed and
  little-endian (spec, 6). \<open>word_image\<close> and \<open>word_value\<close> are the bytes of one
  address and the address of such bytes.
\<close>

record 'addr kernel_sigaction =
  sa_handler :: 'addr
  sa_flags :: 'addr
  sa_mask :: 'addr

definition word_image :: "'a::len word \<Rightarrow> u8 list" where
  "word_image w = map (\<lambda>i. ucast (drop_bit (8 * i) w)) [0..<LENGTH('a) div 8]"

definition word_value :: "u8 list \<Rightarrow> 'a::len word" where
  "word_value bs = foldr (\<lambda>b w. ucast b OR push_bit 8 w) bs 0"

definition sizeof_address :: "'a::len word \<Rightarrow> nat" where
  "sizeof_address w = LENGTH('a) div 8"

definition kernel_sigaction_image :: "'a::len word kernel_sigaction \<Rightarrow> u8 list" where
  "kernel_sigaction_image sa =
     word_image (sa_handler sa) @ word_image (sa_flags sa) @ word_image (sa_mask sa)"

definition kernel_sigaction_value :: "u8 list \<Rightarrow> 'a::len word kernel_sigaction" where
  "kernel_sigaction_value bs =
     (let W = LENGTH('a) div 8 in
      \<lparr>sa_handler = word_value (take W bs),
       sa_flags = word_value (take W (drop W bs)),
       sa_mask = word_value (take W (drop (2 * W) bs))\<rparr>)"

definition syscall_sigaction :: "'a::len word Machine \<Rightarrow> error + 'a word Machine" where
  "syscall_sigaction machine =
     (let sig = sysarg_int machine 0;
          action = sysarg machine 1;
          old_action = sysarg machine 2
      in
        if sig = 0 then Inr machine
        else
          bind_error
            (if old_action \<noteq> 0 then
               copy_to_guest machine old_action
                 (kernel_sigaction_image
                    \<lparr>sa_handler = act_handler (sigaction machine sig) AND NOT 0xF,
                     sa_flags = (if act_altstack (sigaction machine sig) then SA_ONSTACK else 0),
                     sa_mask = ucast (act_mask (sigaction machine sig))\<rparr>)
             else Inr machine)
            (\<lambda>machine1.
               bind_error
                 (if action \<noteq> 0 then
                    bind_error (copy_from_guest machine1 action (3 * (LENGTH('a) div 8)))
                      (\<lambda>bs.
                         let sa = kernel_sigaction_value bs :: 'a word kernel_sigaction in
                         Inr (machine1\<lparr>sigactions := (sigactions machine1)
                                (sig := (sigaction machine1 sig)
                                   \<lparr>act_handler := sa_handler sa,
                                    act_altstack := (sa_flags sa AND SA_ONSTACK \<noteq> 0),
                                    act_mask := ucast (sa_mask sa)\<rparr>)\<rparr>))
                  else Inr machine1)
                 (\<lambda>machine2. Inr (set_result machine2 0))))"

text \<open>
  The scenario of the round trip: one call of \<^verbatim>\<open>rt_sigaction\<close>, after which the guest
  loads the registers \<open>regs\<close> and calls it again.
\<close>

definition sigaction_then_query ::
  "'a::len word Machine \<Rightarrow> (nat \<Rightarrow> 'a word) \<Rightarrow> error + 'a word Machine" where
  "sigaction_then_query machine regs =
     bind_error (syscall_sigaction machine)
       (\<lambda>machine1. syscall_sigaction (machine1\<lparr>cpu_reg := regs\<rparr>))"

subsection \<open>\<^verbatim>\<open>readv\<close> (65), \<^verbatim>\<open>write\<close> (64) and \<^verbatim>\<open>writev\<close> (66)\<close>

text \<open>
  The transfers themselves go through the host and are arguments: \<open>transfer\<close> stands
  for the branch of \<^verbatim>\<open>syscall_readv\<close> and of \<^verbatim>\<open>syscall_writev\<close> that is taken with a
  real descriptor (it copies the guest's vector, gathers the buffers, calls the host or,
  in \<^verbatim>\<open>writev\<close> with the real descriptor 1 or 2, prints, and sets the result);
  \<open>print\<close> for the gathering and printing of one guest range in \<^verbatim>\<open>syscall_write\<close>,
  and \<open>host_write\<close> for its branch through the host's \<^verbatim>\<open>writev\<close>.
\<close>

definition syscall_readv ::
  "('a word Machine \<Rightarrow> int \<Rightarrow> 'a word \<Rightarrow> int \<Rightarrow> error + 'a word Machine) \<Rightarrow> 'a::len word Machine \<Rightarrow>
     error + 'a word Machine" where
  "syscall_readv transfer machine =
     (let vfd = sysarg_int machine 0;
          iov_g = sysarg machine 1;
          count = sysarg_int machine 2
      in
        if count < 1 \<or> 128 < count then Inr (set_result machine (of_int (- EINVAL)))
        else
          let real_fd =
                (if vfd = 1 \<or> vfd = 2 then - 1
                 else (case m_fds machine of None \<Rightarrow> - 1 | Some f \<Rightarrow> translate f vfd))
          in
            if real_fd < 0 then Inr (set_result machine (of_int (- EBADF)))
            else transfer machine real_fd iov_g count)"

definition syscall_writev ::
  "('a word Machine \<Rightarrow> int \<Rightarrow> 'a word \<Rightarrow> int \<Rightarrow> error + 'a word Machine) \<Rightarrow> 'a::len word Machine \<Rightarrow>
     error + 'a word Machine" where
  "syscall_writev transfer machine =
     (let vfd = sysarg_int machine 0;
          iov_g = sysarg machine 1;
          count = sysarg_int machine 2
      in
        if count < 0 \<or> 256 < count then Inr (set_result machine (of_int (- EINVAL)))
        else
          let real_fd =
                (if vfd = 1 \<or> vfd = 2 then vfd
                 else (case m_fds machine of None \<Rightarrow> - 1 | Some f \<Rightarrow> translate f vfd))
          in
            if real_fd < 0 then Inr (set_result machine (of_int (- EBADF)))
            else transfer machine real_fd iov_g count)"

definition syscall_write ::
  "('a word Machine \<Rightarrow> 'a word \<Rightarrow> 'a word \<Rightarrow> error + 'a word Machine) \<Rightarrow>
   ('a word Machine \<Rightarrow> int \<Rightarrow> 'a word \<Rightarrow> 'a word \<Rightarrow> error + 'a word Machine) \<Rightarrow> 'a::len word Machine \<Rightarrow>
     error + 'a word Machine" where
  "syscall_write print host_write machine =
     (let vfd = sysarg_int machine 0;
          address = sysarg machine 1;
          len = sysarg machine 2
      in
        if vfd = 1 \<or> vfd = 2 then
          bind_error (print machine address len) (\<lambda>machine'. Inr (set_result machine' len))
        else
          (case m_fds machine of
             None \<Rightarrow> Inr (set_result machine (of_int (- EBADF)))
           | Some f \<Rightarrow>
               if permit_write f vfd then host_write machine (translate f vfd) address len
               else Inr (set_result machine (of_int (- EBADF)))))"

section \<open>Example states\<close>

text \<open>
  The concrete states at which the theorems below are evaluated: a memory with the
  given page table, page quota and heap address and every other member zero, a machine
  with the given registers and memory, no signal action set and no file descriptors, and
  two pages that hold a \<^verbatim>\<open>kernel_sigaction\<close> with the handler \<open>0x1234\<close>, the flags
  \<^verbatim>\<open>SA_ONSTACK\<close> and the mask \<open>0xF\<close> at offset 0, for 32-bit and for 64-bit
  addresses.
\<close>

definition example_memory :: "(nat \<times> Page) list \<Rightarrow> nat \<Rightarrow> 'a word \<Rightarrow> 'a::len word Memory" where
  "example_memory ps cap heap =
     \<lparr>m_pages = ps, m_pages_total = cap, m_pages_highest = length ps,
      m_current_rd_page = None, m_current_wr_page = None,
      m_start_address = 0, m_stack_address = 0, m_heap_address = heap,
      m_exit_address = 0, m_elf_end_vaddr = 0, m_protect_segments = True\<rparr>"

definition example_machine :: "(nat \<Rightarrow> 'a word) \<Rightarrow> 'a word Memory \<Rightarrow> 'a::len word Machine" where
  "example_machine regs mem =
     \<lparr>cpu_reg = regs, memory = mem,
      sigactions = (\<lambda>sig. \<lparr>act_handler = 0, act_altstack = False, act_mask = 0\<rparr>),
      m_fds = None\<rparr>"

definition sigaction_page :: Page where
  "sigaction_page =
     new_Page\<lparr>page_data := (\<lambda>off. 0)(0 := 0x34, 1 := 0x12, 7 := 0x08, 8 := 0x0F)\<rparr>"

definition sigaction_page64 :: Page where
  "sigaction_page64 =
     new_Page\<lparr>page_data := (\<lambda>off. 0)(0 := 0x34, 1 := 0x12, 11 := 0x08, 16 := 0x0F)\<rparr>"

section \<open>Properties of the decoder cache\<close>

lemma SIZE_simps: "SIZE True = 2048" "SIZE False = 1024"
  by (simp_all add: SIZE_def DIVISOR_def PageSize_def)

text \<open>
  C10. Called with \<open>n = 0\<close>, \<^verbatim>\<open>serialize_whole_decoder_cache\<close> returns the empty
  vector, whatever the caches and the handler mapping are: no descriptor image, no count
  byte and no binding is emitted, so the output does not have the raw layout, which holds
  at least the count byte.
\<close>

theorem serialize_zero_pages_empty:
  "serialize_whole_decoder_cache ce caches 0 m = Inr [] \<and> \<not> raw_layout ce 0 []"
  by (simp add: serialize_whole_decoder_cache_def raw_layout_def)

subsection \<open>Bounds of a descriptor\<close>

text \<open>
  C7, as stated, fails: the fields are wider than the bounds. In a build with compressed
  instructions \<^verbatim>\<open>icount\<close> may exceed \<^verbatim>\<open>idxend\<close> (here \<open>idxend = 0\<close>, \<open>icount = 1\<close>:
  the instruction count is 0); in a build without, the 16-bit \<^verbatim>\<open>idxend\<close> may exceed
  1024 (here 1025: the block has 4100 bytes).
\<close>

theorem decoder_data_bounds_counterexample:
  "\<not> 1 \<le> instruction_count \<lparr>m_bytecode = 0, m_handler = 0, idx = Compressed 0 1, instr = 0\<rparr> \<and>
   \<not> block_bytes \<lparr>m_bytecode = 0, m_handler = 0, idx = Uncompressed 1025, instr = 0\<rparr> \<le> int PageSize"
  by (simp add: instruction_count_def block_bytes_def idxend_def compressed_enabled_def PageSize_def)

text \<open>
  C7, amended. For every descriptor: in a build with compressed instructions
  \<^verbatim>\<open>block_bytes\<close> is at most \<^verbatim>\<open>PageSize\<close>, and \<^verbatim>\<open>instruction_count\<close> is at least 1
  exactly when \<open>icount \<le> idxend\<close>; in a build without, \<^verbatim>\<open>instruction_count\<close> is at
  least 1, and \<^verbatim>\<open>block_bytes\<close> is at most \<^verbatim>\<open>PageSize\<close> exactly when
  \<open>idxend \<le> 1024\<close>.
\<close>

theorem decoder_data_bounds:
  "block_bytes (d\<lparr>idx := Compressed e c\<rparr>) \<le> int PageSize \<and>
   (1 \<le> instruction_count (d\<lparr>idx := Compressed e c\<rparr>) \<longleftrightarrow> c \<le> e) \<and>
   1 \<le> instruction_count (d\<lparr>idx := Uncompressed e'\<rparr>) \<and>
   (block_bytes (d\<lparr>idx := Uncompressed e'\<rparr>) \<le> int PageSize \<longleftrightarrow> e' \<le> 1024)"
proof -
  have "uint e < 256" using uint_bounded [of e] by simp
  then have 1: "block_bytes (d\<lparr>idx := Compressed e c\<rparr>) \<le> int PageSize"
    by (simp add: block_bytes_def idxend_def compressed_enabled_def PageSize_def)
  have 2: "1 \<le> instruction_count (d\<lparr>idx := Compressed e c\<rparr>) \<longleftrightarrow> c \<le> e"
    by (simp add: instruction_count_def word_le_def)
  have 3: "1 \<le> instruction_count (d\<lparr>idx := Uncompressed e'\<rparr>)"
    by (simp add: instruction_count_def)
  have 4: "block_bytes (d\<lparr>idx := Uncompressed e'\<rparr>) \<le> int PageSize \<longleftrightarrow> e' \<le> 1024"
    by (simp add: block_bytes_def idxend_def compressed_enabled_def PageSize_def word_le_def)
  from 1 2 3 4 show ?thesis by blast
qed

subsection \<open>Images and overlays\<close>

lemma le32_roundtrip: "le32_value (le32_image w @ rest) = w"
  unfolding le32_value_def le32_image_def
  apply simp
  apply (rule bit_word_eqI)
  apply (simp add: bit_simps)
  apply (auto simp: not_less)
  subgoal for n by (cases "n < 24") auto
  done

lemma le16_roundtrip: "le16_value (le16_image w @ rest) = w"
  unfolding le16_value_def le16_image_def
  apply simp
  apply (rule bit_word_eqI)
  apply (auto simp: bit_simps not_less)
  done

lemma le32_value_image: "le32_value (le32_image w) = w"
  using le32_roundtrip [of w "[]"] by simp

lemma le16_value_image: "le16_value (le16_image w) = w"
  using le16_roundtrip [of w "[]"] by simp

lemma length_le16_image [simp]: "length (le16_image w) = 2"
  by (simp add: le16_image_def)

lemma length_le32_image [simp]: "length (le32_image w) = 4"
  by (simp add: le32_image_def)

lemma length_DecoderData_image [simp]: "length (DecoderData_image d) = 8"
  by (simp add: DecoderData_image_def idx_image_def le16_image_def split: idx_fields.splits)

lemma length_handler_item_image [simp]: "length (handler_item_image kv) = 8"
  by (simp add: handler_item_image_def)

lemma DecoderData_overlay_image:
  "compressed_enabled d = ce \<Longrightarrow> DecoderData_overlay ce (DecoderData_image d) = d"
  by (cases d)
    (auto simp: DecoderData_overlay_def DecoderData_image_def idx_image_def compressed_enabled_def
      le32_roundtrip le16_roundtrip le32_value_image le16_value_image split: idx_fields.splits)

lemma length_concat_blocks:
  "list_all (\<lambda>x. length x = k) xss \<Longrightarrow> length (concat xss) = length xss * k"
  by (induction xss) auto

lemma block_of_concat:
  "list_all (\<lambda>x. length x = k) xss \<Longrightarrow> p < length xss \<Longrightarrow>
     take k (drop (k * p) (concat xss @ rest)) = xss ! p"
proof (induction xss arbitrary: p)
  case Nil
  then show ?case by simp
next
  case (Cons x xss)
  show ?case
  proof (cases p)
    case 0
    with Cons.prems show ?thesis by simp
  next
    case (Suc q)
    with Cons.prems have "q < length xss" "list_all (\<lambda>x. length x = k) xss" "length x = k"
      by auto
    with Cons.IH [of q] Suc show ?thesis by simp
  qed
qed

lemma length_DecoderCache_image:
  "length (DecoderCache_image c) = length (cache c) * 8"
  unfolding DecoderCache_image_def
  by (subst length_concat_blocks [where k = 8]) (simp_all add: list_all_iff)

lemma DecoderCache_overlay_image:
  assumes "length (cache c) = SIZE ce" and "list_all (\<lambda>d. compressed_enabled d = ce) (cache c)"
  shows "DecoderCache_overlay ce (DecoderCache_image c) = c"
proof -
  have "map (\<lambda>i. DecoderData_overlay ce (take 8 (drop (8 * i) (DecoderCache_image c)))) [0..<SIZE ce]
        = cache c"
  proof (rule nth_equalityI)
    show "length (map (\<lambda>i. DecoderData_overlay ce (take 8 (drop (8 * i) (DecoderCache_image c))))
            [0..<SIZE ce]) = length (cache c)"
      using assms(1) by simp
  next
    fix i
    assume "i < length (map (\<lambda>i. DecoderData_overlay ce (take 8 (drop (8 * i) (DecoderCache_image c))))
            [0..<SIZE ce])"
    then have i: "i < length (cache c)" using assms(1) by simp
    have "take 8 (drop (8 * i) (concat (map DecoderData_image (cache c)) @ [])) =
            map DecoderData_image (cache c) ! i"
      by (rule block_of_concat) (simp_all add: list_all_iff i)
    then have "take 8 (drop (8 * i) (DecoderCache_image c)) = DecoderData_image (cache c ! i)"
      using i by (simp add: DecoderCache_image_def)
    moreover have "compressed_enabled (cache c ! i) = ce"
      using assms(2) i by (simp add: list_all_length)
    ultimately show "map (\<lambda>i. DecoderData_overlay ce (take 8 (drop (8 * i) (DecoderCache_image c))))
            [0..<SIZE ce] ! i = cache c ! i"
      using i assms(1) by (simp add: DecoderData_overlay_image)
  qed
  then show ?thesis by (simp add: DecoderCache_overlay_def)
qed

lemma length_caches_image:
  "caches_of_build ce n caches \<Longrightarrow> length (caches_image caches) = length caches * (SIZE ce * 8)"
  unfolding caches_image_def caches_of_build_def
  by (subst length_concat_blocks [where k = "SIZE ce * 8"])
     (simp_all add: list_all_iff length_DecoderCache_image)

lemma caches_overlay_image:
  assumes "caches_of_build ce n caches" and "descriptors_of_build ce caches"
  shows "caches_overlay ce (nat n) (caches_image caches @ rest) = caches"
proof (rule nth_equalityI)
  show "length (caches_overlay ce (nat n) (caches_image caches @ rest)) = length caches"
    using assms(1) by (auto simp: caches_overlay_def caches_of_build_def)
next
  fix p
  assume "p < length (caches_overlay ce (nat n) (caches_image caches @ rest))"
  then have p: "p < length caches" "p < nat n"
    using assms(1) by (auto simp: caches_overlay_def caches_of_build_def)
  have "take (SIZE ce * 8) (drop (SIZE ce * 8 * p) (concat (map DecoderCache_image caches) @ rest)) =
          map DecoderCache_image caches ! p"
    using assms(1) p
    by (intro block_of_concat) (simp_all add: list_all_iff caches_of_build_def length_DecoderCache_image)
  then have "take (SIZE ce * 8) (drop (SIZE ce * 8 * p) (caches_image caches @ rest)) =
          DecoderCache_image (caches ! p)"
    using p by (simp add: caches_image_def)
  moreover have "length (cache (caches ! p)) = SIZE ce"
    "list_all (\<lambda>d. compressed_enabled d = ce) (cache (caches ! p))"
    using assms p by (simp_all add: caches_of_build_def descriptors_of_build_def list_all_length)
  ultimately show "caches_overlay ce (nat n) (caches_image caches @ rest) ! p = caches ! p"
    using p by (simp add: caches_overlay_def DecoderCache_overlay_image)
qed


lemma length_handler_mapping:
  assumes "handler_mapping_ok m"
  shows "length m \<le> 256"
proof -
  from assms have d: "distinct (map fst m)" and b: "fst ` set m \<subseteq> {..<256}"
    by (auto simp: handler_mapping_ok_def list_all_iff)
  have "length m = card (fst ` set m)"
    using d distinct_card [of "map fst m"] by simp
  also have "\<dots> \<le> card {..<256::nat}"
    using b by (intro card_mono) auto
  finally show ?thesis by simp
qed

lemma handler_bindings_all:
  "0 \<notin> fst ` set m \<Longrightarrow> handler_bindings m = m"
  by (induction m) (auto simp: handler_bindings_def)

lemma length_handler_bindings:
  "distinct (map fst m) \<Longrightarrow> 0 \<in> fst ` set m \<Longrightarrow> Suc (length (handler_bindings m)) = length m"
proof (induction m)
  case Nil
  then show ?case by simp
next
  case (Cons kv m)
  show ?case
  proof (cases "fst kv = 0")
    case True
    with Cons.prems have "0 \<notin> fst ` set m" by auto
    then have "handler_bindings m = m" by (rule handler_bindings_all)
    with True show ?thesis by (simp add: handler_bindings_def)
  next
    case False
    with Cons.prems have "distinct (map fst m)" "0 \<in> fst ` set m" by auto
    with Cons.IH False show ?thesis by (simp add: handler_bindings_def)
  qed
qed

lemma serialize_eq:
  assumes n: "1 \<le> n" and sz: "n * int (SIZE ce) * 8 < 2 ^ 31"
    and cb: "caches_of_build ce n caches"
    and mo: "handler_mapping_ok m" and z: "0 \<in> fst ` set m"
  shows "serialize_whole_decoder_cache ce caches n m =
           Inr (caches_image caches @ [of_nat (length (handler_bindings m))] @
                concat (map handler_item_image (handler_bindings m)))"
proof -
  let ?x = "n * int (SIZE ce) * 8"
  have nb: "n < 2 ^ 31" "0 \<le> n"
    using n sz by (cases ce; simp add: SIZE_simps)+
  have x0: "0 \<le> ?x" using nb by simp
  have p: "(2::int) ^ 31 < 2 ^ 64" by simp
  have n64: "n < 2 ^ 64" using nb(1) p by linarith
  have x64: "?x < 2 ^ 64" using sz p by linarith
  have t1: "to_size_t n = n" using nb(2) n64 by (simp add: to_size_t_def)
  have t2: "to_size_t ?x = ?x" using x0 x64 by (simp add: to_size_t_def)
  have "- ((2::int) ^ 31) \<le> 0" by simp
  with x0 have "- (2 ^ 31) \<le> ?x" by linarith
  then have t3: "to_int ?x = ?x"
    unfolding to_int_def using sz by (rule signed_take_bit_int_eq_self)
  have size: "to_int (to_size_t (to_size_t n * int (SIZE ce) * 8)) = ?x"
    by (simp only: t1 t2 t3)
  have len: "int (length (caches_image caches)) = n * int (SIZE ce) * 8"
    using length_caches_image [OF cb] cb by (simp add: caches_of_build_def)
  from mo have d: "distinct (map fst m)" by (simp add: handler_mapping_ok_def)
  have hb: "int (length m) - 1 = int (length (handler_bindings m))"
    using length_handler_bindings [OF d z] by simp
  have lm: "length m \<le> 256" using mo by (rule length_handler_mapping)
  have np: "to_size_t (int (length m) - 1) = int (length (handler_bindings m))"
    using hb lm by (simp add: to_size_t_def)
  have fits: "\<not> PTRDIFF_MAX < int (length (handler_bindings m)) * 8"
    using hb lm by (simp add: PTRDIFF_MAX_def)
  have nlt: "\<not> length (caches_image caches) < nat ?x"
    and tk: "take (nat ?x) (caches_image caches) = caches_image caches"
    using len by simp_all
  have nneg: "\<not> ?x < 0" using x0 by simp
  have n0: "n \<noteq> 0" using n by simp
  note np' = np [unfolded handler_bindings_def]
  note fits' = fits [unfolded handler_bindings_def]
  have "serialize_whole_decoder_cache ce caches n m =
          Inr (caches_image caches @ [of_int (int (length (filter (\<lambda>kv. fst kv \<noteq> 0) m)))] @
               concat (map handler_item_image (filter (\<lambda>kv. fst kv \<noteq> 0) m)))"
    unfolding serialize_whole_decoder_cache_def Let_def size np'
    by (simp only: n0 nneg nlt tk fits' if_False simp_thms)
  then show ?thesis by (simp add: handler_bindings_def)
qed

lemma assign_handlers_items:
  assumes "list_all (\<lambda>kv. fst kv < length hs \<and> fst kv < 2 ^ 32) items"
  shows "assign_handlers decode (pre @ concat (map handler_item_image items) @ post)
           (length pre) (length items) hs =
         Inr (foldl (\<lambda>hs kv. hs[fst kv := Some (decode (snd kv))]) hs items)"
  using assms
proof (induction items arbitrary: pre hs)
  case Nil
  then show ?case by simp
next
  case (Cons kv items)
  define tail where "tail = concat (map handler_item_image items) @ post"
  let ?data = "pre @ handler_item_image kv @ tail"
  let ?hs = "hs[fst kv := Some (decode (snd kv))]"
  have k: "fst kv < length hs" "fst kv < 2 ^ 32"
    and rest: "list_all (\<lambda>kv'. fst kv' < length ?hs \<and> fst kv' < 2 ^ 32) items"
    using Cons.prems by simp_all
  have data: "pre @ concat (map handler_item_image (kv # items)) @ post = ?data"
    by (simp add: tail_def)
  have idx: "le32_value (take 4 (drop (length pre) ?data)) = of_nat (fst kv)"
    by (simp add: handler_item_image_def le32_roundtrip le32_value_image)
  have ins: "le32_value (take 4 (drop (length pre + 4) ?data)) = snd kv"
    by (simp add: handler_item_image_def le32_roundtrip le32_value_image)
  have u: "unat (of_nat (fst kv) :: u32) = fst kv"
    using k(2) by (simp add: unat_of_nat)
  have len8: "\<not> length ?data < length pre + 8" by simp
  have nk: "\<not> length hs \<le> fst kv" using k(1) by simp
  have "assign_handlers decode ?data (length pre) (Suc (length items)) hs =
        assign_handlers decode ?data (length pre + 8) (length items) ?hs"
    by (simp only: assign_handlers.simps Let_def idx ins u len8 nk if_False)
  also have "?data = (pre @ handler_item_image kv) @ concat (map handler_item_image items) @ post"
    by (simp add: tail_def)
  also have "assign_handlers decode \<dots> (length pre + 8) (length items) ?hs =
        Inr (foldl (\<lambda>hs kv. hs[fst kv := Some (decode (snd kv))]) ?hs items)"
    using Cons.IH [OF rest, of "pre @ handler_item_image kv"] by simp
  finally show ?case by (simp add: data)
qed

lemma length_foldl_assign [simp]:
  "length (foldl (\<lambda>hs kv. hs[fst kv := Some (decode (snd kv))]) hs items) = length hs"
  by (induction items arbitrary: hs) simp_all

lemma foldl_assign_other:
  "k \<notin> fst ` set items \<Longrightarrow>
     foldl (\<lambda>hs kv. hs[fst kv := Some (decode (snd kv))]) hs items ! k = hs ! k"
  by (induction items arbitrary: hs) auto

lemma foldl_assign_lookup:
  "distinct (map fst items) \<Longrightarrow> (k, e) \<in> set items \<Longrightarrow> k < length hs \<Longrightarrow>
     foldl (\<lambda>hs kv. hs[fst kv := Some (decode (snd kv))]) hs items ! k = Some (decode e)"
proof (induction items arbitrary: hs)
  case Nil
  then show ?case by simp
next
  case (Cons kv items)
  show ?case
  proof (cases "kv = (k, e)")
    case True
    with Cons.prems have "k \<notin> fst ` set items" by auto
    with True Cons.prems(3) show ?thesis by (simp add: foldl_assign_other)
  next
    case False
    with Cons.prems have "distinct (map fst items)" "(k, e) \<in> set items" by auto
    with Cons.IH [of "hs[fst kv := Some (decode (snd kv))]"] Cons.prems(3) show ?thesis by simp
  qed
qed


lemma handler_bindings_facts:
  assumes mo: "handler_mapping_ok m" and z: "0 \<in> fst ` set m"
  shows "length (handler_bindings m) < 256"
    and "distinct (map fst (handler_bindings m))"
    and "list_all (\<lambda>kv. fst kv < 256) (handler_bindings m)"
proof -
  from mo have d: "distinct (map fst m)" and b: "list_all (\<lambda>kv. fst kv < 256) m"
    by (simp_all add: handler_mapping_ok_def)
  from length_handler_bindings [OF d z] length_handler_mapping [OF mo]
  show "length (handler_bindings m) < 256" by simp
  from d show "distinct (map fst (handler_bindings m))"
    by (simp add: handler_bindings_def distinct_map_filter)
  from b show "list_all (\<lambda>kv. fst kv < 256) (handler_bindings m)"
    by (simp add: handler_bindings_def list_all_iff)
qed

lemma length_caches_image_replicate:
  "length (caches_image (replicate k \<lparr>cache = replicate j d\<rparr>)) = k * (j * 8)"
  unfolding caches_image_def
  by (subst length_concat_blocks [where k = "j * 8"])
     (simp_all add: list_all_iff length_DecoderCache_image)

subsection \<open>Handler assignment\<close>

text \<open>
  \<^verbatim>\<open>d.set_handler(decode(d.instr))\<close> keeps the invariant of the handler tables, leaves
  the slot assigned, and keeps every other slot assigned; and whenever the tables satisfy
  the invariant and every slot with an index other than 0 is assigned, the handlers are
  assigned in the sense of \<open>handlers_assigned\<close>.
\<close>

lemma handler_index_for_invariant:
  assumes inv: "tables_invariant decode t"
    and ok: "handler_index_for h t = Inr (i, t')"
  shows "handler_cache t' h = Some i"
    and "i < 256"
    and "inst_handler_mapping t' = inst_handler_mapping t"
    and "\<And>h' j. handler_cache t h' = Some j \<Longrightarrow> handler_cache t' h' = Some j"
    and "tables_invariant decode t'"
proof -
  from inv have len: "length (instr_handlers t) = 256" and cnt: "handler_count t \<le> 256"
    and below: "\<And>h i. handler_cache t h = Some i \<Longrightarrow> i < handler_count t"
    and inj: "\<And>h h' i. handler_cache t h = Some i \<Longrightarrow> handler_cache t h' = Some i \<Longrightarrow> h = h'"
    and mo: "handler_mapping_ok (inst_handler_mapping t)"
    and rep: "\<And>kv. kv \<in> set (inst_handler_mapping t) \<Longrightarrow>
                handler_cache t (decode (snd kv)) = Some (fst kv)"
    by (auto simp: tables_invariant_def)
  show "handler_cache t' h = Some i"
    using ok by (auto simp: handler_index_for_def Let_def split: option.splits if_splits)
  show "inst_handler_mapping t' = inst_handler_mapping t"
    using ok by (auto simp: handler_index_for_def Let_def split: option.splits if_splits)
  show "handler_cache t' h' = Some j" if "handler_cache t h' = Some j" for h' j
    using ok that by (auto simp: handler_index_for_def Let_def split: option.splits if_splits)
  show "tables_invariant decode t'"
  proof (cases "handler_cache t h")
    case (Some j)
    with ok have "t' = t" by (simp add: handler_index_for_def)
    with inv show ?thesis by simp
  next
    case None
    with ok have c: "handler_count t < 256" and i: "i = handler_count t"
      and t': "t' = t\<lparr>instr_handlers := (instr_handlers t)[i := Some h],
                       handler_count := i + 1,
                       handler_cache := (handler_cache t)(h \<mapsto> i)\<rparr>"
      using len by (auto simp: handler_index_for_def Let_def split: if_splits)
    show ?thesis
      unfolding tables_invariant_def t'
      using len c mo below inj rep None i
      by (auto simp: less_Suc_eq dest: below split: if_splits)
  qed
  show "i < 256"
  proof (cases "handler_cache t h")
    case (Some j)
    with ok have "i = j" by (simp add: handler_index_for_def)
    with Some below [of h j] cnt show ?thesis by simp
  next
    case None
    with ok len show ?thesis
      by (auto simp: handler_index_for_def Let_def split: if_splits)
  qed
qed


lemma set_update_subset:
  "set (AList.update k v al) \<subseteq> insert (k, v) (set al)"
  by (induction al) auto

lemma set_handler_assigns:
  assumes inv: "tables_invariant decode t"
    and ok: "set_handler \<lparr>handler = decode (instr d)\<rparr> d t = Inr (d', t')"
  shows "tables_invariant decode t'"
    and "slot_assigned decode t' d'"
    and "d' = d\<lparr>m_handler := m_handler d'\<rparr>"
    and "\<And>d0. slot_assigned decode t d0 \<Longrightarrow> slot_assigned decode t' d0"
proof -
  from ok obtain i t1 where hif: "handler_index_for (decode (instr d)) t = Inr (i, t1)"
    and d': "d' = d\<lparr>m_handler := of_nat i\<rparr>"
    and t': "t' = t1\<lparr>inst_handler_mapping :=
               AList.update (unat (m_handler d')) (instr d') (inst_handler_mapping t1)\<rparr>"
    by (auto simp: set_handler_def set_insn_handler_def split: sum.splits)
  note h = handler_index_for_invariant [OF inv hif]
  have ui: "unat (m_handler d') = i"
    using h(2) by (simp add: d' unat_of_nat)
  have id': "instr d' = instr d" by (simp add: d')
  have m': "inst_handler_mapping t' = AList.update i (instr d) (inst_handler_mapping t)"
    unfolding t' ui id' by (simp add: h(3))
  have hc': "handler_cache t' = handler_cache t1" by (simp add: t')
  from h(5) have len: "length (instr_handlers t1) = 256" and cnt: "handler_count t1 \<le> 256"
    and below: "\<And>h i. handler_cache t1 h = Some i \<Longrightarrow> i < handler_count t1"
    and inj: "\<And>h h' i. handler_cache t1 h = Some i \<Longrightarrow> handler_cache t1 h' = Some i \<Longrightarrow> h = h'"
    and mo: "handler_mapping_ok (inst_handler_mapping t1)"
    and rep: "\<And>kv. kv \<in> set (inst_handler_mapping t1) \<Longrightarrow>
                handler_cache t1 (decode (snd kv)) = Some (fst kv)"
    by (auto simp: tables_invariant_def)
  from mo have dist: "distinct (map fst (inst_handler_mapping t))"
    and keys: "\<And>kv. kv \<in> set (inst_handler_mapping t) \<Longrightarrow> fst kv < 256"
    by (auto simp: handler_mapping_ok_def list_all_iff h(3))
  have set': "set (inst_handler_mapping t') \<subseteq> insert (i, instr d) (set (inst_handler_mapping t))"
    unfolding m' by (rule set_update_subset)
  have mo': "handler_mapping_ok (inst_handler_mapping t')"
    unfolding handler_mapping_ok_def list_all_iff
  proof (intro conjI ballI)
    show "distinct (map fst (inst_handler_mapping t'))"
      unfolding m' using dist by (simp add: AList.distinct_update)
    fix kv assume "kv \<in> set (inst_handler_mapping t')"
    with set' have "kv = (i, instr d) \<or> kv \<in> set (inst_handler_mapping t)" by auto
    then show "fst kv < 256" using h(2) keys [of kv] by auto
  qed
  have rep': "handler_cache t' (decode (snd kv)) = Some (fst kv)"
    if "kv \<in> set (inst_handler_mapping t')" for kv
  proof -
    from that set' have "kv = (i, instr d) \<or> kv \<in> set (inst_handler_mapping t1)"
      by (auto simp: h(3))
    then show ?thesis using h(1) rep by (auto simp: hc')
  qed
  show "tables_invariant decode t'"
    unfolding tables_invariant_def
    using len cnt below inj mo' rep' by (auto simp: t')
  show "slot_assigned decode t' d'"
    unfolding slot_assigned_def ui id' hc' m'
    using h(1) by (simp add: AList.dom_update)
  show "d' = d\<lparr>m_handler := m_handler d'\<rparr>"
    by (simp add: d')
  show "slot_assigned decode t' d0" if "slot_assigned decode t d0" for d0
    using that h(4) [of "decode (instr d0)" "unat (m_handler d0)"]
    unfolding slot_assigned_def hc' m' by (auto simp: AList.dom_update)
qed

lemma assigned_slots_handlers_assigned:
  assumes inv: "tables_invariant decode t"
    and slots: "list_all (\<lambda>c. list_all (\<lambda>d. m_handler d = 0 \<or> slot_assigned decode t d) (cache c)) caches"
  shows "handlers_assigned decode (inst_handler_mapping t) caches"
  unfolding handlers_assigned_def list_all_iff
proof (intro ballI)
  fix c d
  assume c: "c \<in> set caches" and d: "d \<in> set (cache c)"
  let ?m = "inst_handler_mapping t"
  let ?k = "unat (m_handler d)"
  show "m_handler d = 0 \<or>
        (case map_of ?m ?k of None \<Rightarrow> False | Some e \<Rightarrow> decode e = decode (instr d))"
  proof (cases "m_handler d = 0")
    case True
    then show ?thesis by simp
  next
    case False
    with slots c d have s: "slot_assigned decode t d" by (auto simp: list_all_iff)
    then have "?k \<in> fst ` set ?m" by (simp add: slot_assigned_def)
    then obtain e where e: "map_of ?m ?k = Some e"
      by (cases "map_of ?m ?k") (auto simp: map_of_eq_None_iff)
    then have "(?k, e) \<in> set ?m" by (rule map_of_SomeD)
    with inv have "handler_cache t (decode e) = Some ?k"
      by (auto simp: tables_invariant_def)
    moreover from s have "handler_cache t (decode (instr d)) = Some ?k"
      by (simp add: slot_assigned_def)
    ultimately have "decode e = decode (instr d)"
      using inv by (auto simp: tables_invariant_def)
    with e show ?thesis by simp
  qed
qed

text \<open>
  The empty tables satisfy the invariant, whatever the first index is. Every call of
  \<^verbatim>\<open>set_handler\<close> records the index it assigned in the mapping and keeps the
  indices recorded before. With the counter initialised to 0, as \<^verbatim>\<open>handler_count\<close>
  is, the first handler set gets index 0, so the mapping holds index 0 from then on.
\<close>

lemma tables_invariant_initial:
  "c \<le> 256 \<Longrightarrow>
     tables_invariant decode
       \<lparr>instr_handlers = replicate 256 None, handler_count = c,
        handler_cache = (\<lambda>h. None), inst_handler_mapping = []\<rparr>"
  by (simp add: tables_invariant_def handler_mapping_ok_def)

lemma set_handler_mapping:
  assumes "set_handler insn d t = Inr (d', t')"
  shows "inst_handler_mapping t' =
           AList.update (unat (m_handler d')) (instr d) (inst_handler_mapping t)"
  using assms
  by (auto simp: set_handler_def set_insn_handler_def handler_index_for_def Let_def
      split: sum.splits option.splits if_splits)

lemma set_handler_records_index:
  assumes "set_handler insn d t = Inr (d', t')"
  shows "unat (m_handler d') \<in> fst ` set (inst_handler_mapping t')"
    and "fst ` set (inst_handler_mapping t) \<subseteq> fst ` set (inst_handler_mapping t')"
  by (simp_all add: set_handler_mapping [OF assms] AList.dom_update subset_insertI)

lemma first_set_handler_records_index_0:
  assumes "handler_count t = 0" and "handler_cache t (handler insn) = None"
    and "set_handler insn d t = Inr (d', t')"
  shows "m_handler d' = 0" and "0 \<in> fst ` set (inst_handler_mapping t')"
proof -
  show z: "m_handler d' = 0"
    using assms
    by (auto simp: set_handler_def set_insn_handler_def handler_index_for_def Let_def
        split: sum.splits option.splits if_splits)
  show "0 \<in> fst ` set (inst_handler_mapping t')"
    using set_handler_records_index(1) [OF assms(3)] by (simp add: z)
qed

subsection \<open>The raw layout\<close>

text \<open>
  C2, as stated, fails in three ways. The count byte is \<^verbatim>\<open>m.size() - 1\<close>, which is
  the number of bindings other than index 0 only when the mapping holds index 0. With an
  empty mapping (no handler was ever set) the \<^verbatim>\<open>size_t\<close> subtraction wraps and
  \<^verbatim>\<open>new _handler_item[needed_pairs]\<close> throws; with the one binding \<open>1 \<mapsto> 19\<close> the
  array has no entry and the loop writes one. And \<^verbatim>\<open>int size\<close> holds
  \<open>n * SIZE * 8\<close> only below \<open>2^31\<close>: for 262144 pages of 1024 slots it is negative
  and \<^verbatim>\<open>out.resize(size)\<close> throws.
\<close>

theorem serialize_raw_layout_counterexample:
  "serialize_whole_decoder_cache False
     [\<lparr>cache = replicate 1024 \<lparr>m_bytecode = 0, m_handler = 0, idx = Uncompressed 0, instr = 0\<rparr>\<rparr>]
     1 [] = Inl bad_alloc \<and>
   serialize_whole_decoder_cache False
     [\<lparr>cache = replicate 1024 \<lparr>m_bytecode = 0, m_handler = 1, idx = Uncompressed 0, instr = 19\<rparr>\<rparr>]
     1 [(1, 19)] = Inl undefined_behaviour \<and>
   serialize_whole_decoder_cache False
     (replicate 262144
        \<lparr>cache = replicate 1024 \<lparr>m_bytecode = 0, m_handler = 0, idx = Uncompressed 0, instr = 0\<rparr>\<rparr>)
     262144 [(0, 0)] = Inl length_error"
proof -
  have l: "length (caches_image [\<lparr>cache = replicate 1024 d\<rparr>]) = 8192" for d
    using length_caches_image_replicate [of 1 1024 d] by simp
  show ?thesis
    by (simp add: serialize_whole_decoder_cache_def Let_def SIZE_simps to_int_def to_size_t_def
        PTRDIFF_MAX_def l)
qed

text \<open>
  C2, amended. For every cache array of \<open>n \<ge> 1\<close> pages with \<open>n * SIZE * 8 < 2^31\<close>,
  and a handler mapping that holds index 0, the vector returned consists of the
  \<open>n * SIZE * 8\<close> bytes of the descriptor image, then one byte \<open>H\<close>, the number of
  bindings of indices other than 0, then one entry of eight bytes for each of these
  bindings: the index and the representative encoding, each a little-endian
  \<^verbatim>\<open>uint32_t\<close> (\<open>handler_item_image\<close>), neither the count nor an index truncated.
\<close>

theorem serialize_raw_layout:
  assumes "1 \<le> n" and "n * int (SIZE ce) * 8 < 2 ^ 31"
    and "caches_of_build ce n caches"
    and "handler_mapping_ok m" and "0 \<in> fst ` set m"
  shows "serialize_whole_decoder_cache ce caches n m =
           Inr (caches_image caches @ [of_nat (length (handler_bindings m))] @
                concat (map handler_item_image (handler_bindings m))) \<and>
         length (caches_image caches) = nat n * SIZE ce * 8 \<and>
         unat (of_nat (length (handler_bindings m)) :: u8) = length (handler_bindings m) \<and>
         length (concat (map handler_item_image (handler_bindings m))) =
           length (handler_bindings m) * 8 \<and>
         list_all (\<lambda>kv. unat (of_nat (fst kv) :: u32) = fst kv) (handler_bindings m)"
proof -
  note hb = handler_bindings_facts [OF assms(4,5)]
  have 1: "serialize_whole_decoder_cache ce caches n m =
           Inr (caches_image caches @ [of_nat (length (handler_bindings m))] @
                concat (map handler_item_image (handler_bindings m)))"
    using assms by (rule serialize_eq)
  have 2: "length (caches_image caches) = nat n * SIZE ce * 8"
    using length_caches_image [OF assms(3)] assms(3) by (auto simp: caches_of_build_def)
  have 3: "unat (of_nat (length (handler_bindings m)) :: u8) = length (handler_bindings m)"
    using hb(1) by (simp add: unat_of_nat)
  have 4: "length (concat (map handler_item_image (handler_bindings m))) =
           length (handler_bindings m) * 8"
    by (subst length_concat_blocks [where k = 8]) (simp_all add: list_all_iff)
  have 5: "list_all (\<lambda>kv. unat (of_nat (fst kv) :: u32) = fst kv) (handler_bindings m)"
    using hb(3) by (auto simp: list_all_iff unat_of_nat)
  from 1 2 3 4 5 show ?thesis by blast
qed

theorem serialize_raw_layout_witness:
  "serialize_whole_decoder_cache False
     [\<lparr>cache = replicate 1024 \<lparr>m_bytecode = 0, m_handler = 1, idx = Uncompressed 0, instr = 19\<rparr>\<rparr>]
     1 [(0, 0), (1, 19)] =
   Inr (caches_image
          [\<lparr>cache = replicate 1024 \<lparr>m_bytecode = 0, m_handler = 1, idx = Uncompressed 0, instr = 19\<rparr>\<rparr>]
        @ [1] @ handler_item_image (1, 19))"
proof -
  let ?C = "[\<lparr>cache = replicate 1024 \<lparr>m_bytecode = 0, m_handler = 1, idx = Uncompressed 0, instr = 19\<rparr>\<rparr>]"
  have 1: "(1::int) \<le> 1" by simp
  have 2: "1 * int (SIZE False) * 8 < 2 ^ 31" by (simp add: SIZE_simps)
  have 3: "caches_of_build False 1 ?C" by (simp add: caches_of_build_def SIZE_simps)
  have 4: "handler_mapping_ok [(0, 0), (1, 19)]" by (simp add: handler_mapping_ok_def)
  have 5: "0 \<in> fst ` set [(0, 0), (1, 19 :: u32)]" by simp
  from serialize_raw_layout [OF 1 2 3 4 5] show ?thesis by (simp add: handler_bindings_def)
qed

subsection \<open>The round trip\<close>

text \<open>
  C1, as stated, fails. For \<open>n = 0\<close> the serializer returns the empty vector and the
  deserializer, which asks for at least one byte, throws. For \<open>n \<ge> 1\<close> the serializer
  itself fails when the mapping lacks index 0 (here: a cache of invalid handlers before
  any handler was set) or when \<open>n * SIZE * 8\<close> does not fit an \<^verbatim>\<open>int\<close>.
\<close>

theorem raw_roundtrip_counterexample:
  "serialize_whole_decoder_cache True [] 0 [(0, 0)] = Inr [] \<and>
   deserialize_decoder_cache True (\<lambda>e. e) [] 0 0 (replicate 256 None) = Inl runtime_error \<and>
   serialize_whole_decoder_cache True
     [\<lparr>cache = replicate 2048 \<lparr>m_bytecode = 0, m_handler = 0, idx = Compressed 0 0, instr = 0\<rparr>\<rparr>]
     1 [] = Inl bad_alloc \<and>
   serialize_whole_decoder_cache True
     (replicate 131072
        \<lparr>cache = replicate 2048 \<lparr>m_bytecode = 0, m_handler = 0, idx = Compressed 0 0, instr = 0\<rparr>\<rparr>)
     131072 [(0, 0)] = Inl length_error"
proof -
  have l: "length (caches_image [\<lparr>cache = replicate 2048 d\<rparr>]) = 16384" for d
    using length_caches_image_replicate [of 1 2048 d] by simp
  show ?thesis
    by (simp add: serialize_whole_decoder_cache_def deserialize_decoder_cache_def Let_def
        SIZE_simps to_int_def to_size_t_def PTRDIFF_MAX_def l)
qed

text \<open>
  C1, amended. For every array of \<open>n \<ge> 1\<close> cache pages of the build with
  \<open>n * SIZE * 8 < 2^31\<close>, whose handlers were assigned by \<^verbatim>\<open>set_handler\<close>, and a
  handler mapping that holds index 0: serialization succeeds, and deserializing its
  output (with its length, which fits an \<^verbatim>\<open>int\<close>, as \<open>L\<close>, into any handler table) returns a cache array equal
  to the original, descriptor by descriptor, and a handler table in which every
  descriptor with a handler index other than 0 finds the handler its own encoding decodes
  to, which is the handler a fresh build assigns.
\<close>

theorem raw_roundtrip:
  assumes "1 \<le> n" and "n * int (SIZE ce) * 8 < 2 ^ 31"
    and "caches_of_build ce n caches" and "descriptors_of_build ce caches"
    and "handler_mapping_ok m" and "0 \<in> fst ` set m"
    and "handlers_assigned decode m caches"
    and "length hs = 256"
  shows "\<exists>bytes hs'.
           serialize_whole_decoder_cache ce caches n m = Inr bytes \<and>
           int (length bytes) < 2 ^ 31 \<and>
           deserialize_decoder_cache ce decode bytes n (int (length bytes)) hs = Inr (caches, hs') \<and>
           list_all (\<lambda>c. list_all (\<lambda>d. m_handler d = 0 \<or>
                hs' ! unat (m_handler d) = Some (decode (instr d))) (cache c)) caches"
proof -
  let ?items = "handler_bindings m"
  let ?img = "caches_image caches"
  let ?H = "of_nat (length ?items) :: u8"
  let ?bytes = "?img @ [?H] @ concat (map handler_item_image ?items)"
  let ?hs' = "foldl (\<lambda>hs kv. hs[fst kv := Some (decode (snd kv))]) hs ?items"
  let ?x = "n * int (SIZE ce) * 8"
  note hb = handler_bindings_facts [OF assms(5,6)]
  have ser: "serialize_whole_decoder_cache ce caches n m = Inr ?bytes"
    using assms(1,2,3,5,6) by (rule serialize_eq)
  have len: "int (length ?img) = ?x"
    using length_caches_image [OF assms(3)] assms(3) by (simp add: caches_of_build_def)
  have x0: "0 \<le> ?x" using len by linarith
  have n0: "0 \<le> n" using assms(1) by simp
  have p: "(2::int) ^ 31 < 2 ^ 64" by simp
  have "n \<le> ?x" using assms(1) by (cases ce) (simp_all add: SIZE_simps)
  then have n64: "n < 2 ^ 64" using assms(2) p by linarith
  have x64: "?x + 1 < 2 ^ 64" using assms(2) p by linarith
  have t1: "to_size_t n = n" using n0 n64 by (simp add: to_size_t_def)
  have req: "to_size_t (to_size_t n * int (SIZE ce) * 8 + 1) = ?x + 1"
    unfolding t1 using x0 x64 by (simp add: to_size_t_def)
  have items8: "length (concat (map handler_item_image ?items)) = length ?items * 8"
    by (subst length_concat_blocks [where k = 8]) (simp_all add: list_all_iff)
  have lb: "int (length ?bytes) = ?x + 1 + int (length ?items) * 8"
    using len items8 by simp
  have p': "(2::int) ^ 31 + 2048 < 2 ^ 64" by simp
  have l64: "int (length ?bytes) < 2 ^ 64"
    using lb hb(1) assms(2) p' by linarith
  have "?x \<le> 2 ^ 31 - 8192"
    using assms(2) by (cases ce) (simp_all add: SIZE_simps)
  then have l31: "int (length ?bytes) < 2 ^ 31"
    using lb hb(1) by linarith
  have L: "to_size_t (int (length ?bytes)) = int (length ?bytes)"
    using l64 by (simp add: to_size_t_def)
  have c1: "\<not> to_size_t (int (length ?bytes)) < ?x + 1"
    unfolding L using lb by linarith
  have c2: "\<not> int (length ?bytes) < ?x + 1"
    using lb by linarith
  have nl: "nat (?x + 1 - 1) = length ?img"
    using len by simp
  have nth: "?bytes ! nat (?x + 1 - 1) = ?H"
    unfolding nl by simp
  have uH: "unat ?H = length ?items"
    using hb(1) by (simp add: unat_of_nat)
  have pre: "nat (?x + 1) = length (?img @ [?H])"
    using len by simp
  have "list_all (\<lambda>kv. fst kv < length hs \<and> fst kv < 2 ^ 32) ?items"
    using hb(3) assms(8) by (auto simp: list_all_iff)
  from assign_handlers_items [OF this, of decode "?img @ [?H]" "[]"]
  have asg: "assign_handlers decode ?bytes (nat (?x + 1)) (unat ?H) hs = Inr ?hs'"
    unfolding pre uH by simp
  have ov: "caches_overlay ce (nat n) ?bytes = caches"
    using assms(3,4) by (rule caches_overlay_image)
  have des: "deserialize_decoder_cache ce decode ?bytes n (int (length ?bytes)) hs = Inr (caches, ?hs')"
    unfolding deserialize_decoder_cache_def Let_def req
    by (simp only: c1 c2 if_False nth asg ov sum.case)
  have fin: "list_all (\<lambda>c. list_all (\<lambda>d. m_handler d = 0 \<or>
                ?hs' ! unat (m_handler d) = Some (decode (instr d))) (cache c)) caches"
    unfolding list_all_iff
  proof (intro ballI)
    fix c d
    assume c: "c \<in> set caches" and d: "d \<in> set (cache c)"
    show "m_handler d = 0 \<or> ?hs' ! unat (m_handler d) = Some (decode (instr d))"
    proof (cases "m_handler d = 0")
      case True
      then show ?thesis by simp
    next
      case False
      from assms(7) c d False obtain e
        where e: "map_of m (unat (m_handler d)) = Some e" "decode e = decode (instr d)"
        by (auto simp: handlers_assigned_def list_all_iff split: option.splits)
      from False have "unat (m_handler d) \<noteq> 0" by (simp add: unat_eq_0)
      with e(1) have "(unat (m_handler d), e) \<in> set ?items"
        by (auto simp: handler_bindings_def dest: map_of_SomeD)
      moreover have "unat (m_handler d) < length hs"
        using assms(8) unsigned_less [of "m_handler d", where ?'a = nat] by simp
      ultimately have "?hs' ! unat (m_handler d) = Some (decode e)"
        using hb(2) by (intro foldl_assign_lookup)
      with e(2) show ?thesis by simp
    qed
  qed
  from ser l31 des fin show ?thesis by blast
qed

theorem raw_roundtrip_witness:
  "\<exists>bytes hs'.
     serialize_whole_decoder_cache False
       [\<lparr>cache = replicate 1024 \<lparr>m_bytecode = 0, m_handler = 1, idx = Uncompressed 0, instr = 19\<rparr>\<rparr>]
       1 [(0, 0), (1, 19)] = Inr bytes \<and>
     deserialize_decoder_cache False (\<lambda>e. e) bytes 1 (int (length bytes)) (replicate 256 None) =
       Inr ([\<lparr>cache = replicate 1024 \<lparr>m_bytecode = 0, m_handler = 1, idx = Uncompressed 0, instr = 19\<rparr>\<rparr>],
            hs') \<and>
     hs' ! 1 = Some 19"
proof -
  let ?d = "\<lparr>m_bytecode = 0, m_handler = 1, idx = Uncompressed 0, instr = 19\<rparr>"
  let ?C = "[\<lparr>cache = replicate 1024 ?d\<rparr>]"
  let ?m = "[(0, 0), (1, 19)] :: (nat \<times> u32) list"
  have 1: "(1::int) \<le> 1" by simp
  have 2: "1 * int (SIZE False) * 8 < 2 ^ 31" by (simp add: SIZE_simps)
  have 3: "caches_of_build False 1 ?C" by (simp add: caches_of_build_def SIZE_simps)
  have 4: "descriptors_of_build False ?C"
    by (simp add: descriptors_of_build_def list_all_iff compressed_enabled_def)
  have 5: "handler_mapping_ok ?m" by (simp add: handler_mapping_ok_def)
  have 6: "0 \<in> fst ` set ?m" by simp
  have 7: "handlers_assigned (\<lambda>e. e) ?m ?C"
    by (simp add: handlers_assigned_def list_all_iff)
  have 8: "length (replicate 256 (None :: u32 option)) = 256" by simp
  from raw_roundtrip [OF 1 2 3 4 5 6 7 8] show ?thesis
    by (auto simp: list_all_iff)
qed

section \<open>Properties of the guest memory\<close>

lemma map_of_snoc:
  "map_of ps k = None \<Longrightarrow> map_of (ps @ [(k, v)]) = (map_of ps)(k \<mapsto> v)"
  by (rule ext) (auto simp: map_add_def split: option.splits)

text \<open>
  C4, as stated, fails: \<^verbatim>\<open>allocate_page\<close> never checks the quota. In a memory
  whose one page already reaches \<open>pages_total = 1\<close> it still inserts page 5, leaving
  two pages; the check is in \<^verbatim>\<open>default_page_fault\<close>. And at a page number that is
  already mapped the insertion keeps the page that is there (here the read-only page at
  0), not a fresh one.
\<close>

theorem allocate_page_counterexample:
  "pages_total (example_memory [(0, cow_page)] 1 (0 :: 32 word)) \<le> pages_active (example_memory [(0, cow_page)] 1 (0 :: 32 word)) \<and>
   map_of (m_pages (allocate_page 5 (example_memory [(0, cow_page)] 1 (0 :: 32 word)))) 5 = Some new_Page \<and>
   pages_active (allocate_page 5 (example_memory [(0, cow_page)] 1 (0 :: 32 word))) = 2 \<and>
   map_of (m_pages (allocate_page 0 (example_memory [(0, cow_page)] 1 (0 :: 32 word)))) 0 = Some cow_page \<and>
   cow_page \<noteq> new_Page"
  by (simp add: example_memory_def pages_total_def pages_active_def allocate_page_def pages_insert_def
      invalidate_page_def Let_def cow_page_def new_Page_def)

text \<open>
  C4, amended. \<^verbatim>\<open>default_page_fault(page)\<close> fails with \<^verbatim>\<open>OUT_OF_MEMORY\<close> when
  \<open>pages_active \<ge> pages_total\<close> and otherwise returns what \<^verbatim>\<open>allocate_page(page)\<close>
  returns. \<^verbatim>\<open>allocate_page\<close> itself has no failure: at a page number that is not
  mapped it inserts a fresh page, zeroed and owned, leaving every other entry of the
  table as it was and the table one page larger; it clears each of the two cached page
  numbers that is \<open>page\<close>, and sets \<open>pages_highest\<close> to the maximum of its old value
  and the new number of pages.
\<close>

theorem allocate_page_effect:
  "(pages_total mem \<le> pages_active mem \<longrightarrow>
      default_page_fault mem page = Inl (MachineException OUT_OF_MEMORY)) \<and>
   (pages_active mem < pages_total mem \<longrightarrow>
      default_page_fault mem page = Inr (allocate_page page mem)) \<and>
   (map_of (m_pages mem) page = None \<longrightarrow>
      map_of (m_pages (allocate_page page mem)) = (map_of (m_pages mem))(page \<mapsto> new_Page) \<and>
      pages_active (allocate_page page mem) = pages_active mem + 1) \<and>
   page_data new_Page = (\<lambda>off. 0) \<and>
   \<not> attr_shared (attr new_Page) \<and> \<not> attr_is_cow (attr new_Page) \<and>
   m_current_rd_page (allocate_page page mem) =
     (if m_current_rd_page mem = Some page then None else m_current_rd_page mem) \<and>
   m_current_wr_page (allocate_page page mem) =
     (if m_current_wr_page mem = Some page then None else m_current_wr_page mem) \<and>
   m_pages_highest (allocate_page page mem) =
     max (m_pages_highest mem) (pages_active (allocate_page page mem))"
proof -
  have ins: "map_of (m_pages mem) page = None \<longrightarrow>
      map_of (m_pages (allocate_page page mem)) = (map_of (m_pages mem))(page \<mapsto> new_Page) \<and>
      pages_active (allocate_page page mem) = pages_active mem + 1"
    by (simp add: allocate_page_def pages_insert_def invalidate_page_def pages_active_def
        Let_def map_of_snoc del: map_of_append)
  have fault: "(pages_total mem \<le> pages_active mem \<longrightarrow>
      default_page_fault mem page = Inl (MachineException OUT_OF_MEMORY)) \<and>
   (pages_active mem < pages_total mem \<longrightarrow>
      default_page_fault mem page = Inr (allocate_page page mem))"
    by (simp add: default_page_fault_def)
  have fresh: "page_data new_Page = (\<lambda>off. 0) \<and>
      \<not> attr_shared (attr new_Page) \<and> \<not> attr_is_cow (attr new_Page)"
    by (simp add: new_Page_def)
  have rest: "m_current_rd_page (allocate_page page mem) =
     (if m_current_rd_page mem = Some page then None else m_current_rd_page mem) \<and>
   m_current_wr_page (allocate_page page mem) =
     (if m_current_wr_page mem = Some page then None else m_current_wr_page mem) \<and>
   m_pages_highest (allocate_page page mem) =
     max (m_pages_highest mem) (pages_active (allocate_page page mem))"
    by (simp add: allocate_page_def invalidate_page_def pages_active_def Let_def)
  from ins fault fresh rest show ?thesis by blast
qed

theorem allocate_page_effect_witness:
  "default_page_fault (example_memory [(0, cow_page)] 1 (0 :: 32 word)) 5 = Inl (MachineException OUT_OF_MEMORY) \<and>
   default_page_fault (example_memory [(0, cow_page)] 2 (0 :: 32 word)) 5 =
     Inr (allocate_page 5 (example_memory [(0, cow_page)] 2 (0 :: 32 word))) \<and>
   map_of (m_pages (allocate_page 5 (example_memory [(0, cow_page)] 2 (0 :: 32 word)))) 5 = Some new_Page \<and>
   pages_active (allocate_page 5 (example_memory [(0, cow_page)] 2 (0 :: 32 word))) = 2 \<and>
   m_pages_highest (allocate_page 5 (example_memory [(0, cow_page)] 2 (0 :: 32 word))) = 2"
proof -
  have 1: "pages_total (example_memory [(0, cow_page)] 1 (0 :: 32 word)) \<le> pages_active (example_memory [(0, cow_page)] 1 (0 :: 32 word))"
    by (simp add: example_memory_def pages_total_def pages_active_def)
  have 2: "pages_active (example_memory [(0, cow_page)] 2 (0 :: 32 word)) < pages_total (example_memory [(0, cow_page)] 2 (0 :: 32 word))"
    by (simp add: example_memory_def pages_total_def pages_active_def)
  have 3: "map_of (m_pages (example_memory [(0, cow_page)] 2 (0 :: 32 word))) 5 = None"
    by (simp add: example_memory_def)
  have 4: "pages_active (example_memory [(0, cow_page)] 2 (0 :: 32 word)) = 1" "m_pages_highest (example_memory [(0, cow_page)] 2 (0 :: 32 word)) = 1"
    by (simp_all add: example_memory_def pages_active_def)
  from allocate_page_effect [of "example_memory [(0, cow_page)] 1 (0 :: 32 word)" 5]
       allocate_page_effect [of "example_memory [(0, cow_page)] 2 (0 :: 32 word)" 5] 1 2 3 4
  show ?thesis by simp
qed

section \<open>Properties of the system calls\<close>

lemma bind_error_simps [simp]:
  "bind_error (Inl e) f = Inl e" "bind_error (Inr x) f = f x"
  by (simp_all add: bind_error_def)

subsection \<open>\<^verbatim>\<open>brk\<close>\<close>

text \<open>
  C5, as stated, fails. The upper bound \<open>heap_address + BRK_MAX\<close> is computed in
  \<^verbatim>\<open>address_type<W>\<close> and wraps. On a 32-bit machine with the heap at \<open>0xFFF00000\<close>
  and \<open>BRK_MAX = 0x1000000\<close> the bound is \<open>0x00F00000\<close>, so the request
  \<open>0xFFF80000\<close>, which lies above the heap address, is above the bound and \<^verbatim>\<open>brk\<close>
  returns \<open>0x00F00000\<close>, an address below the heap.
\<close>

theorem brk_clamp_counterexample:
  "return_value (syscall_brk 0x1000000
     (example_machine ((\<lambda>r. 0)(10 := 0xFFF80000)) (example_memory [] 16 (0xFFF00000 :: 32 word)))) =
     0x00F00000 \<and>
   (0x00F00000 :: 32 word) < heap_address (example_memory [] 16 (0xFFF00000 :: 32 word)) \<and>
   heap_address (example_memory [] 16 (0xFFF00000 :: 32 word)) \<le> 0xFFF80000"
  by (simp add: syscall_brk_def return_value_def set_result_def Let_def sysarg_def REG_ARG0_def
      example_machine_def example_memory_def heap_address_def)

text \<open>
  C5, amended. For every requested address: where \<open>[heap_address, heap_address + BRK_MAX]\<close>
  is an interval of addresses (the sum does not wrap around the width of an address),
  \<^verbatim>\<open>brk\<close> returns the clamp of the requested address into it, so the value lies in the
  interval and is the request itself when that lies in it; where the sum wraps, \<^verbatim>\<open>brk\<close>
  returns the wrapped sum, which is below the heap address, for a request above it and
  the heap address for every other request. The two instances of the claim,
  \<open>brk(0x90000000) = 0x81000000\<close> and \<open>brk(0) = 0x80000000\<close> with the heap at
  \<open>0x80000000\<close> and \<open>BRK_MAX = 0x1000000\<close>, and two requests with the heap at
  \<open>0xFFF00000\<close> are the witness.
\<close>

theorem brk_clamp:
  fixes machine :: "'a::len word Machine"
  shows "(unat (heap_address (memory machine)) + unat BRK_MAX < 2 ^ LENGTH('a) \<longrightarrow>
            return_value (syscall_brk BRK_MAX machine) =
              max (heap_address (memory machine))
                (min (heap_address (memory machine) + BRK_MAX) (sysarg machine 0)) \<and>
            heap_address (memory machine) \<le> return_value (syscall_brk BRK_MAX machine) \<and>
            return_value (syscall_brk BRK_MAX machine) \<le> heap_address (memory machine) + BRK_MAX) \<and>
         (\<not> unat (heap_address (memory machine)) + unat BRK_MAX < 2 ^ LENGTH('a) \<longrightarrow>
            heap_address (memory machine) + BRK_MAX < heap_address (memory machine) \<and>
            return_value (syscall_brk BRK_MAX machine) =
              (if heap_address (memory machine) + BRK_MAX < sysarg machine 0
               then heap_address (memory machine) + BRK_MAX
               else heap_address (memory machine)))"
proof (intro conjI impI)
  assume "unat (heap_address (memory machine)) + unat BRK_MAX < 2 ^ LENGTH('a)"
  then have le: "heap_address (memory machine) \<le> heap_address (memory machine) + BRK_MAX"
    by (simp add: no_olen_add_nat)
  from le show "return_value (syscall_brk BRK_MAX machine) =
      max (heap_address (memory machine))
        (min (heap_address (memory machine) + BRK_MAX) (sysarg machine 0))"
    by (auto simp: syscall_brk_def return_value_def set_result_def Let_def max_def min_def)
  from le show "heap_address (memory machine) \<le> return_value (syscall_brk BRK_MAX machine)"
    by (auto simp: syscall_brk_def return_value_def set_result_def Let_def)
  from le show "return_value (syscall_brk BRK_MAX machine) \<le> heap_address (memory machine) + BRK_MAX"
    by (auto simp: syscall_brk_def return_value_def set_result_def Let_def)
next
  assume "\<not> unat (heap_address (memory machine)) + unat BRK_MAX < 2 ^ LENGTH('a)"
  then have "\<not> heap_address (memory machine) \<le> heap_address (memory machine) + BRK_MAX"
    by (simp add: no_olen_add_nat)
  then show lt: "heap_address (memory machine) + BRK_MAX < heap_address (memory machine)"
    by simp
  then show "return_value (syscall_brk BRK_MAX machine) =
      (if heap_address (memory machine) + BRK_MAX < sysarg machine 0
       then heap_address (memory machine) + BRK_MAX
       else heap_address (memory machine))"
    by (auto simp: syscall_brk_def return_value_def set_result_def Let_def)
qed

theorem brk_clamp_witness:
  "return_value (syscall_brk 0x1000000
     (example_machine ((\<lambda>r. 0)(10 := 0x90000000)) (example_memory [] 16 (0x80000000 :: 32 word)))) = 0x81000000 \<and>
   return_value (syscall_brk 0x1000000
     (example_machine ((\<lambda>r. 0)(10 := 0)) (example_memory [] 16 (0x80000000 :: 32 word)))) = 0x80000000 \<and>
   return_value (syscall_brk 0x1000000
     (example_machine ((\<lambda>r. 0)(10 := 0xFFF80000)) (example_memory [] 16 (0xFFF00000 :: 32 word)))) = 0x00F00000 \<and>
   return_value (syscall_brk 0x1000000
     (example_machine ((\<lambda>r. 0)(10 := 0x1000)) (example_memory [] 16 (0xFFF00000 :: 32 word)))) = 0xFFF00000"
proof -
  have h: "unat (heap_address (memory (example_machine regs (example_memory [] 16 (0x80000000 :: 32 word))))) +
           unat (0x1000000 :: 32 word) < 2 ^ LENGTH(32)" for regs
    by (simp add: example_machine_def example_memory_def heap_address_def)
  have w: "\<not> unat (heap_address (memory (example_machine regs (example_memory [] 16 (0xFFF00000 :: 32 word))))) +
           unat (0x1000000 :: 32 word) < 2 ^ LENGTH(32)" for regs
    by (simp add: example_machine_def example_memory_def heap_address_def)
  from brk_clamp [of "example_machine ((\<lambda>r. 0)(10 := 0x90000000)) (example_memory [] 16 (0x80000000 :: 32 word))" "0x1000000"]
    brk_clamp [of "example_machine ((\<lambda>r. 0)(10 := 0)) (example_memory [] 16 (0x80000000 :: 32 word))" "0x1000000"]
    brk_clamp [of "example_machine ((\<lambda>r. 0)(10 := 0xFFF80000)) (example_memory [] 16 (0xFFF00000 :: 32 word))" "0x1000000"]
    brk_clamp [of "example_machine ((\<lambda>r. 0)(10 := 0x1000)) (example_memory [] 16 (0xFFF00000 :: 32 word))" "0x1000000"]
    h w
  show ?thesis
    by (simp add: example_machine_def example_memory_def heap_address_def sysarg_def REG_ARG0_def)
qed

text \<open>
  C9. \<^verbatim>\<open>brk\<close> changes nothing but the result register: the machine after the call is
  the machine before it with a0 replaced, so the memory (its page table, its counters,
  its caches, \<open>heap_address\<close> and every other member), the signal table and the file
  descriptors are as they were, for every requested address.
\<close>

theorem brk_frame:
  "syscall_brk BRK_MAX machine =
     machine\<lparr>cpu_reg := (cpu_reg machine)(REG_ARG0 := return_value (syscall_brk BRK_MAX machine))\<rparr> \<and>
   memory (syscall_brk BRK_MAX machine) = memory machine \<and>
   sigactions (syscall_brk BRK_MAX machine) = sigactions machine \<and>
   m_fds (syscall_brk BRK_MAX machine) = m_fds machine"
  by (simp add: syscall_brk_def set_result_def return_value_def Let_def)

subsection \<open>\<^verbatim>\<open>readv\<close>, \<^verbatim>\<open>write\<close> and \<^verbatim>\<open>writev\<close>\<close>

text \<open>
  C8, as stated, fails: the check of the count comes first. With the virtual descriptor
  1, file descriptors enabled and a count of 0, \<^verbatim>\<open>readv\<close> sets a0 to \<open>-EINVAL\<close>,
  not to \<open>-EBADF\<close>.
\<close>

theorem readv_stdout_stderr_counterexample:
  "syscall_readv (\<lambda>machine fd iov c. Inr machine)
     ((example_machine ((\<lambda>r. 0)(10 := 1, 11 := 0x2000, 12 := 0))
         (example_memory [] 16 (0 :: 32 word)))
        \<lparr>m_fds := Some \<lparr>translate = (\<lambda>vfd. vfd), permit_write = (\<lambda>vfd. True)\<rparr>\<rparr>) =
   Inr (set_result
     ((example_machine ((\<lambda>r. 0)(10 := 1, 11 := 0x2000, 12 := 0))
         (example_memory [] 16 (0 :: 32 word)))
        \<lparr>m_fds := Some \<lparr>translate = (\<lambda>vfd. vfd), permit_write = (\<lambda>vfd. True)\<rparr>\<rparr>)
     (of_int (- EINVAL))) \<and>
   (of_int (- EINVAL) :: 32 word) \<noteq> of_int (- EBADF)"
  by (simp add: syscall_readv_def Let_def sysarg_int_def sysarg_def REG_ARG0_def
      example_machine_def EINVAL_def EBADF_def)

text \<open>
  C8, amended. Called with the virtual descriptor 1 or 2, \<^verbatim>\<open>readv\<close> sets a0 to
  \<open>-EBADF\<close> when the count is between 1 and 128, and to \<open>-EINVAL\<close> otherwise; in both
  cases it changes nothing else and transfers no data (\<open>transfer\<close> is not called),
  whether or not file descriptors are enabled. \<^verbatim>\<open>writev\<close>, with a count between 0 and
  256, instead goes on to the transfer with the descriptor itself as the real one, where
  it prints, and \<^verbatim>\<open>write\<close> prints the range and returns its length.
\<close>

theorem readv_stdout_stderr:
  fixes machine :: "'a::len word Machine"
  assumes "sysarg_int machine 0 = 1 \<or> sysarg_int machine 0 = 2"
  shows "syscall_readv transfer machine =
           Inr (set_result machine
                  (of_int (if 1 \<le> sysarg_int machine 2 \<and> sysarg_int machine 2 \<le> 128
                           then - EBADF else - EINVAL))) \<and>
         (0 \<le> sysarg_int machine 2 \<and> sysarg_int machine 2 \<le> 256 \<longrightarrow>
            syscall_writev transfer' machine =
              transfer' machine (sysarg_int machine 0) (sysarg machine 1) (sysarg_int machine 2)) \<and>
         syscall_write print host_write machine =
           bind_error (print machine (sysarg machine 1) (sysarg machine 2))
             (\<lambda>machine'. Inr (set_result machine' (sysarg machine 2)))"
  using assms
  by (auto simp: syscall_readv_def syscall_writev_def syscall_write_def Let_def)

theorem readv_stdout_stderr_witness:
  "syscall_readv (\<lambda>machine fd iov c. Inr machine)
     ((example_machine ((\<lambda>r. 0)(10 := 1, 11 := 0x2000, 12 := 1))
         (example_memory [] 16 (0 :: 32 word)))
        \<lparr>m_fds := Some \<lparr>translate = (\<lambda>vfd. vfd), permit_write = (\<lambda>vfd. True)\<rparr>\<rparr>) =
   Inr (set_result
     ((example_machine ((\<lambda>r. 0)(10 := 1, 11 := 0x2000, 12 := 1))
         (example_memory [] 16 (0 :: 32 word)))
        \<lparr>m_fds := Some \<lparr>translate = (\<lambda>vfd. vfd), permit_write = (\<lambda>vfd. True)\<rparr>\<rparr>)
     (of_int (- EBADF)))"
proof -
  let ?m = "(example_machine ((\<lambda>r. 0)(10 := 1, 11 := 0x2000, 12 := 1))
         (example_memory [] 16 (0 :: 32 word)))
        \<lparr>m_fds := Some \<lparr>translate = (\<lambda>vfd. vfd), permit_write = (\<lambda>vfd. True)\<rparr>\<rparr>"
  have v: "sysarg_int ?m 0 = 1 \<or> sysarg_int ?m 0 = 2"
    by (simp add: sysarg_int_def sysarg_def REG_ARG0_def example_machine_def)
  have c: "sysarg_int ?m 2 = 1"
    by (simp add: sysarg_int_def sysarg_def REG_ARG0_def example_machine_def)
  from readv_stdout_stderr [OF v, of "\<lambda>machine fd iov c. Inr machine"] c
  show ?thesis by simp
qed

subsection \<open>\<^verbatim>\<open>getrandom\<close>\<close>

text \<open>
  A request of more than 256 bytes returns \<open>-1\<close> and leaves the machine otherwise
  as it was, in either build. In the build for other hosts than OpenBSD a request of at
  most 256 bytes returns what the host's \<^verbatim>\<open>getrandom\<close> returns and, when that is
  positive, copies that many bytes of the buffer to the guest. In the build for OpenBSD
  it returns 0 and copies nothing.
\<close>

lemma getrandom_too_long:
  "256 < unat (sysarg machine 1) \<Longrightarrow>
     syscall_getrandom openbsd host_random machine = Inr (set_result machine (of_int (- 1)))"
  by (simp add: syscall_getrandom_def Let_def)

lemma getrandom_host:
  "unat (sysarg machine 1) \<le> 256 \<Longrightarrow>
     syscall_getrandom False host_random machine =
       bind_error
         (if 0 < fst (host_random (unat (sysarg machine 1)))
          then copy_to_guest machine (sysarg machine 0)
                 (take (nat (fst (host_random (unat (sysarg machine 1)))))
                    (snd (host_random (unat (sysarg machine 1)))))
          else Inr machine)
         (\<lambda>machine'. Inr (set_result machine' (of_int (fst (host_random (unat (sysarg machine 1)))))))"
  by (simp add: syscall_getrandom_def Let_def min_def)

lemma getrandom_openbsd:
  "unat (sysarg machine 1) \<le> 256 \<Longrightarrow>
     syscall_getrandom True host_random machine = Inr (set_result machine 0)"
  by (simp add: syscall_getrandom_def Let_def)

text \<open>
  C6, at the input where the code departs from it: \<open>getrandom(0x2000, 128, 0)\<close> in
  the build for OpenBSD, with a host that fills the buffer with \<open>0xAB\<close>. The call
  returns 0 and the machine is otherwise unchanged: none of the 128 bytes reaches the
  guest. The other build, at the same input, copies the 128 bytes to \<open>0x2000\<close> and
  returns 128, as the claim says.
\<close>

theorem getrandom_openbsd_returns_zero:
  "syscall_getrandom True (\<lambda>need. (int need, replicate 256 0xAB))
     (example_machine ((\<lambda>r. 0)(10 := 0x2000, 11 := 128))
        (example_memory [(2, new_Page)] 16 (0 :: 32 word))) =
   Inr (set_result
     (example_machine ((\<lambda>r. 0)(10 := 0x2000, 11 := 128))
        (example_memory [(2, new_Page)] 16 (0 :: 32 word))) 0) \<and>
   syscall_getrandom False (\<lambda>need. (int need, replicate 256 0xAB))
     (example_machine ((\<lambda>r. 0)(10 := 0x2000, 11 := 128))
        (example_memory [(2, new_Page)] 16 (0 :: 32 word))) =
   bind_error
     (copy_to_guest
        (example_machine ((\<lambda>r. 0)(10 := 0x2000, 11 := 128))
           (example_memory [(2, new_Page)] 16 (0 :: 32 word)))
        0x2000 (replicate 128 0xAB))
     (\<lambda>machine'. Inr (set_result machine' 128))"
proof -
  let ?m = "example_machine ((\<lambda>r. 0)(10 := 0x2000, 11 := 128))
        (example_memory [(2, new_Page)] 16 (0 :: 32 word))"
  have l: "unat (sysarg ?m 1) = 128" and a: "sysarg ?m 0 = 0x2000"
    by (simp_all add: sysarg_def REG_ARG0_def example_machine_def)
  then have le: "unat (sysarg ?m 1) \<le> 256" by simp
  show ?thesis
    unfolding getrandom_openbsd [OF le] getrandom_host [OF le] l a by simp
qed

subsection \<open>\<^verbatim>\<open>rt_sigaction\<close>\<close>

lemma sigaction_set:
  fixes machine :: "'a::len word Machine"
  assumes "sysarg_int machine 0 \<noteq> 0" and "sysarg machine 1 \<noteq> 0" and "sysarg machine 2 = 0"
    and "copy_from_guest machine (sysarg machine 1) (3 * (LENGTH('a) div 8)) = Inr bs"
  shows "syscall_sigaction machine =
     Inr (set_result
       (machine\<lparr>sigactions := (sigactions machine)
          (sysarg_int machine 0 := (sigaction machine (sysarg_int machine 0))
             \<lparr>act_handler := sa_handler (kernel_sigaction_value bs :: 'a word kernel_sigaction),
              act_altstack := (sa_flags (kernel_sigaction_value bs :: 'a word kernel_sigaction)
                                 AND SA_ONSTACK \<noteq> 0),
              act_mask := ucast (sa_mask (kernel_sigaction_value bs :: 'a word kernel_sigaction))\<rparr>)\<rparr>) 0)"
  using assms by (simp add: syscall_sigaction_def Let_def)

lemma sigaction_get:
  fixes machine :: "'a::len word Machine"
  assumes "sysarg_int machine 0 \<noteq> 0" and "sysarg machine 1 = 0" and "sysarg machine 2 \<noteq> 0"
  shows "syscall_sigaction machine =
     bind_error
       (copy_to_guest machine (sysarg machine 2)
          (kernel_sigaction_image
             \<lparr>sa_handler = act_handler (sigaction machine (sysarg_int machine 0)) AND NOT 0xF,
              sa_flags = (if act_altstack (sigaction machine (sysarg_int machine 0))
                          then SA_ONSTACK else 0),
              sa_mask = ucast (act_mask (sigaction machine (sysarg_int machine 0)))\<rparr>))
       (\<lambda>machine'. Inr (set_result machine' 0))"
  using assms by (simp add: syscall_sigaction_def Let_def)

lemma sigaction_then_query_eq:
  fixes machine :: "'a::len word Machine"
  assumes sig: "sysarg_int machine 0 \<noteq> 0" and act: "sysarg machine 1 \<noteq> 0"
    and old: "sysarg machine 2 = 0"
    and rd: "copy_from_guest machine (sysarg machine 1) (3 * (LENGTH('a) div 8)) = Inr bs"
    and sa: "kernel_sigaction_value bs = (sa :: 'a word kernel_sigaction)"
    and r0: "sint (ucast (regs REG_ARG0) :: u32) = sysarg_int machine 0"
    and r1: "regs (REG_ARG0 + 1) = 0" and r2: "regs (REG_ARG0 + 2) \<noteq> 0"
  shows "\<exists>machine2. memory machine2 = memory machine \<and> cpu_reg machine2 = regs \<and>
           sigaction_then_query machine regs =
             bind_error
               (copy_to_guest machine2 (regs (REG_ARG0 + 2))
                  (kernel_sigaction_image
                     \<lparr>sa_handler = sa_handler sa AND NOT 0xF,
                      sa_flags = (if sa_flags sa AND SA_ONSTACK \<noteq> 0 then SA_ONSTACK else 0),
                      sa_mask = ucast (ucast (sa_mask sa) :: u64)\<rparr>))
               (\<lambda>machine3. Inr (set_result machine3 0))"
proof -
  let ?sig = "sysarg_int machine 0"
  let ?m1 = "set_result
       (machine\<lparr>sigactions := (sigactions machine)
          (?sig := (sigaction machine ?sig)
             \<lparr>act_handler := sa_handler sa,
              act_altstack := (sa_flags sa AND SA_ONSTACK \<noteq> 0),
              act_mask := ucast (sa_mask sa)\<rparr>)\<rparr>) 0"
  let ?m2 = "?m1\<lparr>cpu_reg := regs\<rparr>"
  have first: "syscall_sigaction machine = Inr ?m1"
    using sigaction_set [OF sig act old rd] by (simp add: sa)
  have s2: "sysarg_int ?m2 0 = ?sig" "sysarg ?m2 1 = 0" "sysarg ?m2 2 \<noteq> 0"
    using r0 r1 r2 by (simp_all add: sysarg_int_def sysarg_def)
  have s2': "sysarg_int ?m2 0 \<noteq> 0" using s2(1) sig by simp
  have act2: "sigaction ?m2 (sysarg_int ?m2 0) =
       (sigaction machine ?sig)
             \<lparr>act_handler := sa_handler sa,
              act_altstack := (sa_flags sa AND SA_ONSTACK \<noteq> 0),
              act_mask := ucast (sa_mask sa)\<rparr>"
    unfolding s2(1) by (simp add: sigaction_def set_result_def)
  have second: "syscall_sigaction ?m2 =
     bind_error
       (copy_to_guest ?m2 (regs (REG_ARG0 + 2))
          (kernel_sigaction_image
             \<lparr>sa_handler = sa_handler sa AND NOT 0xF,
              sa_flags = (if sa_flags sa AND SA_ONSTACK \<noteq> 0 then SA_ONSTACK else 0),
              sa_mask = ucast (ucast (sa_mask sa) :: u64)\<rparr>))
       (\<lambda>machine3. Inr (set_result machine3 0))"
    unfolding sigaction_get [OF s2' s2(2) s2(3)] act2
    by (simp add: sysarg_def)
  have "memory ?m2 = memory machine" "cpu_reg ?m2 = regs"
    by (simp_all add: set_result_def)
  moreover have "sigaction_then_query machine regs = syscall_sigaction ?m2"
    by (simp add: sigaction_then_query_def first)
  ultimately show ?thesis using second by metis
qed

lemma memcpy_out_numeral:
  "memcpy_out mem src (numeral k) =
     (let p = get_page mem (page_number src) in
      if attr_read (attr p) then
        bind_error (memcpy_out mem (src + 1) (pred_numeral k))
          (\<lambda>bs. Inr (page_data p (page_offset src) # bs))
      else Inl (MachineException PROTECTION_FAULT))"
  using memcpy_out.simps(2) [of mem src "pred_numeral k"] by (simp add: numeral_eq_Suc)

lemma kernel_sigaction_value_image_32:
  "kernel_sigaction_value
     (kernel_sigaction_image \<lparr>sa_handler = 0x1234 :: 32 word, sa_flags = SA_ONSTACK, sa_mask = 0xF\<rparr>) =
   \<lparr>sa_handler = 0x1234 :: 32 word, sa_flags = SA_ONSTACK, sa_mask = 0xF\<rparr>"
  by (simp add: kernel_sigaction_value_def kernel_sigaction_image_def word_image_def
      word_value_def SA_ONSTACK_def upt_rec Let_def)

lemma kernel_sigaction_value_image_64:
  "kernel_sigaction_value
     (kernel_sigaction_image \<lparr>sa_handler = 0x1234 :: 64 word, sa_flags = SA_ONSTACK, sa_mask = 0xF\<rparr>) =
   \<lparr>sa_handler = 0x1234 :: 64 word, sa_flags = SA_ONSTACK, sa_mask = 0xF\<rparr>"
  by (simp add: kernel_sigaction_value_def kernel_sigaction_image_def word_image_def
      word_value_def SA_ONSTACK_def upt_rec Let_def)

lemmas example_eval =
  example_machine_def example_memory_def sigaction_page_def sigaction_page64_def new_Page_def
  copy_from_guest_def copy_to_guest_def memcpy_out_numeral write_byte_def get_page_def
  page_number_def page_offset_def PageSize_def Let_def
  sysarg_def sysarg_int_def REG_ARG0_def set_result_def sigaction_def
  kernel_sigaction_image_def kernel_sigaction_value_def word_image_def word_value_def
  SA_ONSTACK_def upt_rec

text \<open>
  C3, as stated, fails: the handler is written back with its low four bits cleared.
  On a 32-bit machine whose page 2 holds the new action \<open>{0x1234, SA_ONSTACK, 0xF}\<close>
  at \<open>0x2000\<close>, \<open>rt_sigaction(10, 0x2000, NULL)\<close> followed by
  \<open>rt_sigaction(10, NULL, 0x2100)\<close> leaves at \<open>0x2100\<close> the bytes of the handler
  \<open>0x1230\<close>, then those of \<^verbatim>\<open>SA_ONSTACK\<close> and of the mask \<open>0xF\<close>.
\<close>

theorem sigaction_roundtrip_counterexample:
  "bind_error
     (sigaction_then_query
        (example_machine ((\<lambda>r. 0)(10 := 10, 11 := 0x2000, 12 := 0))
           (example_memory [(2, sigaction_page)] 16 (0 :: 32 word)))
        ((\<lambda>r. 0)(10 := 10, 11 := 0, 12 := 0x2100)))
     (\<lambda>machine3. copy_from_guest machine3 0x2100 12) =
   Inr [0x30, 0x12, 0, 0, 0, 0, 0, 8, 0xF, 0, 0, 0] \<and>
   word_value [0x30, 0x12, 0, 0] = (0x1230 :: 32 word) \<and> (0x1230 :: 32 word) \<noteq> 0x1234"
  by (simp add: sigaction_then_query_def syscall_sigaction_def example_eval)

text \<open>
  C3, amended. On a 32-bit and on a 64-bit machine, for every non-zero signal number:
  after \<open>rt_sigaction(sig, new, NULL)\<close>, with \<open>{0x1234, SA_ONSTACK, 0xF}\<close> readable at
  \<open>new\<close>, the call \<open>rt_sigaction(sig, NULL, old)\<close> copies to \<open>old\<close>, in the memory
  the first call was made in, the action with \<open>sa_handler = 0x1230\<close> (the handler with
  its low four bits cleared), \<open>sa_flags = SA_ONSTACK\<close> and \<open>sa_mask = 0xF\<close>, and returns
  0 if the copy succeeds.
\<close>

theorem sigaction_roundtrip:
  fixes m32 :: "32 word Machine" and m64 :: "64 word Machine"
  shows
  "(sysarg_int m32 0 \<noteq> 0 \<and> sysarg m32 1 \<noteq> 0 \<and> sysarg m32 2 = 0 \<and>
    copy_from_guest m32 (sysarg m32 1) 12 =
      Inr (kernel_sigaction_image \<lparr>sa_handler = 0x1234 :: 32 word, sa_flags = SA_ONSTACK, sa_mask = 0xF\<rparr>) \<and>
    sint (ucast (regs32 REG_ARG0) :: u32) = sysarg_int m32 0 \<and>
    regs32 (REG_ARG0 + 1) = 0 \<and> regs32 (REG_ARG0 + 2) \<noteq> 0 \<longrightarrow>
    (\<exists>machine2. memory machine2 = memory m32 \<and> cpu_reg machine2 = regs32 \<and>
       sigaction_then_query m32 regs32 =
         bind_error
           (copy_to_guest machine2 (regs32 (REG_ARG0 + 2))
              (kernel_sigaction_image \<lparr>sa_handler = 0x1230 :: 32 word, sa_flags = SA_ONSTACK, sa_mask = 0xF\<rparr>))
           (\<lambda>machine3. Inr (set_result machine3 0)))) \<and>
   (sysarg_int m64 0 \<noteq> 0 \<and> sysarg m64 1 \<noteq> 0 \<and> sysarg m64 2 = 0 \<and>
    copy_from_guest m64 (sysarg m64 1) 24 =
      Inr (kernel_sigaction_image \<lparr>sa_handler = 0x1234 :: 64 word, sa_flags = SA_ONSTACK, sa_mask = 0xF\<rparr>) \<and>
    sint (ucast (regs64 REG_ARG0) :: u32) = sysarg_int m64 0 \<and>
    regs64 (REG_ARG0 + 1) = 0 \<and> regs64 (REG_ARG0 + 2) \<noteq> 0 \<longrightarrow>
    (\<exists>machine2. memory machine2 = memory m64 \<and> cpu_reg machine2 = regs64 \<and>
       sigaction_then_query m64 regs64 =
         bind_error
           (copy_to_guest machine2 (regs64 (REG_ARG0 + 2))
              (kernel_sigaction_image \<lparr>sa_handler = 0x1230 :: 64 word, sa_flags = SA_ONSTACK, sa_mask = 0xF\<rparr>))
           (\<lambda>machine3. Inr (set_result machine3 0))))"
proof (intro conjI impI; elim conjE)
  assume h: "sysarg_int m32 0 \<noteq> 0" "sysarg m32 1 \<noteq> 0" "sysarg m32 2 = 0"
    "copy_from_guest m32 (sysarg m32 1) 12 =
      Inr (kernel_sigaction_image \<lparr>sa_handler = 0x1234 :: 32 word, sa_flags = SA_ONSTACK, sa_mask = 0xF\<rparr>)"
    "sint (ucast (regs32 REG_ARG0) :: u32) = sysarg_int m32 0"
    "regs32 (REG_ARG0 + 1) = 0" "regs32 (REG_ARG0 + 2) \<noteq> 0"
  have rd: "copy_from_guest m32 (sysarg m32 1) (3 * (LENGTH(32) div 8)) =
      Inr (kernel_sigaction_image \<lparr>sa_handler = 0x1234 :: 32 word, sa_flags = SA_ONSTACK, sa_mask = 0xF\<rparr>)"
    using h(4) by simp
  from sigaction_then_query_eq [OF h(1,2,3) rd kernel_sigaction_value_image_32 h(5,6,7)]
  show "\<exists>machine2. memory machine2 = memory m32 \<and> cpu_reg machine2 = regs32 \<and>
       sigaction_then_query m32 regs32 =
         bind_error
           (copy_to_guest machine2 (regs32 (REG_ARG0 + 2))
              (kernel_sigaction_image \<lparr>sa_handler = 0x1230 :: 32 word, sa_flags = SA_ONSTACK, sa_mask = 0xF\<rparr>))
           (\<lambda>machine3. Inr (set_result machine3 0))"
    by (simp add: SA_ONSTACK_def)
next
  assume h: "sysarg_int m64 0 \<noteq> 0" "sysarg m64 1 \<noteq> 0" "sysarg m64 2 = 0"
    "copy_from_guest m64 (sysarg m64 1) 24 =
      Inr (kernel_sigaction_image \<lparr>sa_handler = 0x1234 :: 64 word, sa_flags = SA_ONSTACK, sa_mask = 0xF\<rparr>)"
    "sint (ucast (regs64 REG_ARG0) :: u32) = sysarg_int m64 0"
    "regs64 (REG_ARG0 + 1) = 0" "regs64 (REG_ARG0 + 2) \<noteq> 0"
  have rd: "copy_from_guest m64 (sysarg m64 1) (3 * (LENGTH(64) div 8)) =
      Inr (kernel_sigaction_image \<lparr>sa_handler = 0x1234 :: 64 word, sa_flags = SA_ONSTACK, sa_mask = 0xF\<rparr>)"
    using h(4) by simp
  from sigaction_then_query_eq [OF h(1,2,3) rd kernel_sigaction_value_image_64 h(5,6,7)]
  show "\<exists>machine2. memory machine2 = memory m64 \<and> cpu_reg machine2 = regs64 \<and>
       sigaction_then_query m64 regs64 =
         bind_error
           (copy_to_guest machine2 (regs64 (REG_ARG0 + 2))
              (kernel_sigaction_image \<lparr>sa_handler = 0x1230 :: 64 word, sa_flags = SA_ONSTACK, sa_mask = 0xF\<rparr>))
           (\<lambda>machine3. Inr (set_result machine3 0))"
    by (simp add: SA_ONSTACK_def)
qed

theorem sigaction_roundtrip_witness:
  "(\<exists>machine2.
      memory machine2 = example_memory [(2, sigaction_page)] 16 (0 :: 32 word) \<and>
      sigaction_then_query
        (example_machine ((\<lambda>r. 0)(10 := 10, 11 := 0x2000, 12 := 0))
           (example_memory [(2, sigaction_page)] 16 (0 :: 32 word)))
        ((\<lambda>r. 0)(10 := 10, 11 := 0, 12 := 0x2100)) =
      bind_error
        (copy_to_guest machine2 0x2100
           (kernel_sigaction_image
              \<lparr>sa_handler = 0x1230 :: 32 word, sa_flags = SA_ONSTACK, sa_mask = 0xF\<rparr>))
        (\<lambda>machine3. Inr (set_result machine3 0))) \<and>
   (\<exists>machine2.
      memory machine2 = example_memory [(2, sigaction_page64)] 16 (0 :: 64 word) \<and>
      sigaction_then_query
        (example_machine ((\<lambda>r. 0)(10 := 10, 11 := 0x2000, 12 := 0))
           (example_memory [(2, sigaction_page64)] 16 (0 :: 64 word)))
        ((\<lambda>r. 0)(10 := 10, 11 := 0, 12 := 0x2100)) =
      bind_error
        (copy_to_guest machine2 0x2100
           (kernel_sigaction_image
              \<lparr>sa_handler = 0x1230 :: 64 word, sa_flags = SA_ONSTACK, sa_mask = 0xF\<rparr>))
        (\<lambda>machine3. Inr (set_result machine3 0)))"
proof -
  let ?m32 = "example_machine ((\<lambda>r. 0)(10 := 10, 11 := 0x2000, 12 := 0))
           (example_memory [(2, sigaction_page)] 16 (0 :: 32 word))"
  let ?m64 = "example_machine ((\<lambda>r. 0)(10 := 10, 11 := 0x2000, 12 := 0))
           (example_memory [(2, sigaction_page64)] 16 (0 :: 64 word))"
  let ?r32 = "(\<lambda>r. 0)(10 := 10, 11 := 0, 12 := 0x2100) :: nat \<Rightarrow> 32 word"
  let ?r64 = "(\<lambda>r. 0)(10 := 10, 11 := 0, 12 := 0x2100) :: nat \<Rightarrow> 64 word"
  have h32: "sysarg_int ?m32 0 \<noteq> 0 \<and> sysarg ?m32 1 \<noteq> 0 \<and> sysarg ?m32 2 = 0 \<and>
    copy_from_guest ?m32 (sysarg ?m32 1) 12 =
      Inr (kernel_sigaction_image \<lparr>sa_handler = 0x1234 :: 32 word, sa_flags = SA_ONSTACK, sa_mask = 0xF\<rparr>) \<and>
    sint (ucast (?r32 REG_ARG0) :: u32) = sysarg_int ?m32 0 \<and>
    ?r32 (REG_ARG0 + 1) = 0 \<and> ?r32 (REG_ARG0 + 2) \<noteq> 0"
    by (simp add: example_eval)
  have h64: "sysarg_int ?m64 0 \<noteq> 0 \<and> sysarg ?m64 1 \<noteq> 0 \<and> sysarg ?m64 2 = 0 \<and>
    copy_from_guest ?m64 (sysarg ?m64 1) 24 =
      Inr (kernel_sigaction_image \<lparr>sa_handler = 0x1234 :: 64 word, sa_flags = SA_ONSTACK, sa_mask = 0xF\<rparr>) \<and>
    sint (ucast (?r64 REG_ARG0) :: u32) = sysarg_int ?m64 0 \<and>
    ?r64 (REG_ARG0 + 1) = 0 \<and> ?r64 (REG_ARG0 + 2) \<noteq> 0"
    by (simp add: example_eval)
  have r: "?r32 (REG_ARG0 + 2) = 0x2100" "?r64 (REG_ARG0 + 2) = 0x2100"
    "memory ?m32 = example_memory [(2, sigaction_page)] 16 (0 :: 32 word)"
    "memory ?m64 = example_memory [(2, sigaction_page64)] 16 (0 :: 64 word)"
    by (simp_all add: REG_ARG0_def example_machine_def)
  from sigaction_roundtrip [of ?m32 ?r32 ?m64 ?r64] h32 h64
  show ?thesis unfolding r by blast
qed


end
